theory Spec2Isabelle
  imports Main
begin

section \<open>Uptime Kuma to Cloudflare DNS failover: data model\<close>

text \<open>
  The development follows \<^verbatim>\<open>uptime-kuma-cloudflare-failover.py\<close>. The module-level
  globals (\<^verbatim>\<open>app_state\<close>, \<^verbatim>\<open>cached_records\<close>), the state file, the log and the
  requests sent to the registrar are the fields of one \<open>world\<close> record that every
  operation takes and returns. Everything the program reads from outside (configuration,
  the clock, the registrar's answers, the random token, Python's own \<^verbatim>\<open>int\<close> and
  \<^verbatim>\<open>datetime\<close> parsers) is a field of the \<open>env\<close> record.
  Handlers run one at a time: the lock \<^verbatim>\<open>state_lock\<close> and the interleaving of
  requests are outside this model.
\<close>

subsection \<open>JSON values\<close>

text \<open>JSON numbers with a fraction are left out: no field of the state holds one.\<close>

datatype json =
    JNull
  | JBool bool
  | JInt int
  | JStr string
  | JArr "json list"
  | JObj "(string \<times> json) list"

text \<open>Python truthiness of a decoded JSON value (\<^verbatim>\<open>x or {}\<close>, \<^verbatim>\<open>if d.get(k)\<close>).\<close>

fun truthy :: "json \<Rightarrow> bool" where
  "truthy JNull = False"
| "truthy (JBool b) = b"
| "truthy (JInt n) = (n \<noteq> 0)"
| "truthy (JStr s) = (s \<noteq> [])"
| "truthy (JArr xs) = (xs \<noteq> [])"
| "truthy (JObj kvs) = (kvs \<noteq> [])"

text \<open>
  A Python dict is an association list in insertion order. \<^verbatim>\<open>d[k] = v\<close> replaces the
  value of a key in place and appends a new key at the end.
\<close>

fun dict_set :: "'k \<Rightarrow> 'v \<Rightarrow> ('k \<times> 'v) list \<Rightarrow> ('k \<times> 'v) list" where
  "dict_set k v [] = [(k, v)]"
| "dict_set k v (p # ps) = (if fst p = k then (k, v) # ps else p # dict_set k v ps)"

subsection \<open>The service state\<close>

text \<open>
  The dataclass \<^verbatim>\<open>ServiceState\<close>. The four counters are the fields
  \<^verbatim>\<open>_s1_down_streak\<close> ... \<^verbatim>\<open>_s2_up_streak\<close> of the source; a leading underscore is
  not an Isabelle name, the keys of \<open>asdict\<close> below keep it.
\<close>

record ServiceState =
  server1_up :: bool
  server2_up :: bool
  current_dns :: string
  last_switch_at :: "string option"
  freeze :: bool
  ttl :: int
  webhook_secret :: "string option"
  down_threshold :: int
  up_threshold :: int
  cooldown_seconds :: int
  s1_down_streak :: int
  s1_up_streak :: int
  s2_down_streak :: int
  s2_up_streak :: int

text \<open>A record of the registrar, as the cache keeps it (keyed by its name).\<close>

record dns_record =
  rec_name :: string
  rec_id :: "string option"
  rec_type :: "string option"
  rec_content :: "string option"
  rec_ttl :: "int option"
  rec_proxied :: "bool option"

text \<open>The JSON body of one update request and the address it is sent to.\<close>

record put_request =
  put_id :: string
  put_type :: string
  put_name :: string
  put_content :: string
  put_ttl :: int
  put_proxied :: bool

datatype put_response = PutOk | PutNotOk int

text \<open>
  One page of the record listing: \<open>GetRaised\<close> is \<^verbatim>\<open>raise_for_status\<close> (or the
  request itself) raising; a page carries its records and \<^verbatim>\<open>result_info.total_pages\<close>
  when present.
\<close>

datatype page_response = GetRaised | GetPage "dns_record list" "int option"

datatype tg_response = TgOk | TgNotOk | TgRaised

datatype error = RegistrarError

text \<open>
  The messages \<^verbatim>\<open>decide_failover\<close> builds with f-strings, by their parts:
  frozen (S1, S2, current), cooldown (current), switched (desired, source, S1, S2),
  no change (S1, S2, current).
\<close>

datatype message =
    FrozenMsg bool bool string
  | CooldownMsg string
  | SwitchedMsg string string bool bool
  | NoChangeMsg bool bool string

datatype log_entry =
    Info message
  | InfoCached "string list"
  | InfoUpdated string string
  | InfoManualSwitch string string
  | ErrorNoRecords
  | ErrorUpdateFailed string int
  | WarnTelegram

text \<open>
  The state file: absent, present but not loadable as a JSON object (\<^verbatim>\<open>json.load\<close> or
  the dict merge raises), or a JSON object.
\<close>

datatype file_content = NoFile | Unreadable | Stored "(string \<times> json) list"

record env =
  CLOUDFLARE_ZONE_ID :: string
  SERVER1_IP :: string
  SERVER2_IP :: string
  DNS_RECORD_NAMES :: "string list"
  TTL_DEFAULT :: int
  telegram_configured :: bool
  utcnow :: int
  isoformat :: "int \<Rightarrow> string"
  fromisoformat :: "string \<Rightarrow> int option"
  int_of_str :: "string \<Rightarrow> int option"
  token_urlsafe :: string
  cf_get :: "int \<Rightarrow> page_response"
  cf_put :: "put_request \<Rightarrow> put_response"
  tg_post :: "message \<Rightarrow> tg_response"

record world =
  app_state :: ServiceState
  cached_records :: "(string \<times> dns_record) list"
  state_file :: file_content
  logs :: "log_entry list"
  puts :: "put_request list"
  telegrams :: "message list"

section \<open>The persistent state store\<close>

definition opt_str :: "string option \<Rightarrow> json" where
  "opt_str x = (case x of None \<Rightarrow> JNull | Some s \<Rightarrow> JStr s)"

text \<open>\<^verbatim>\<open>dataclasses.asdict\<close>: every field, in declaration order.\<close>

definition asdict :: "ServiceState \<Rightarrow> (string \<times> json) list" where
  "asdict s =
     [(''server1_up'', JBool (server1_up s)),
      (''server2_up'', JBool (server2_up s)),
      (''current_dns'', JStr (current_dns s)),
      (''last_switch_at'', opt_str (last_switch_at s)),
      (''freeze'', JBool (freeze s)),
      (''ttl'', JInt (ttl s)),
      (''webhook_secret'', opt_str (webhook_secret s)),
      (''down_threshold'', JInt (down_threshold s)),
      (''up_threshold'', JInt (up_threshold s)),
      (''cooldown_seconds'', JInt (cooldown_seconds s)),
      (''_s1_down_streak'', JInt (s1_down_streak s)),
      (''_s1_up_streak'', JInt (s1_up_streak s)),
      (''_s2_down_streak'', JInt (s2_down_streak s)),
      (''_s2_up_streak'', JInt (s2_up_streak s))]"

text \<open>
  \<^verbatim>\<open>to_public\<close>: drop every key that starts with \<^verbatim>\<open>_s\<close>, then mask a truthy
  \<^verbatim>\<open>webhook_secret\<close>.
\<close>

definition to_public :: "ServiceState \<Rightarrow> (string \<times> json) list" where
  "to_public s =
     (let d = filter (\<lambda>kv. take 2 (fst kv) \<noteq> ''_s'') (asdict s)
      in case map_of d ''webhook_secret'' of
           None \<Rightarrow> d
         | Some v \<Rightarrow> if truthy v then dict_set ''webhook_secret'' (JStr ''***'') d else d)"

text \<open>
  \<^verbatim>\<open>save\<close> overwrites the file with \<^verbatim>\<open>asdict(self)\<close>. The write is taken to
  succeed.
\<close>

definition save :: "world \<Rightarrow> world" where
  "save w = w\<lparr>state_file := Stored (asdict (app_state w))\<rparr>"

text \<open>The dataclass defaults, \<^verbatim>\<open>cls()\<close>.\<close>

definition defaults :: "env \<Rightarrow> ServiceState" where
  "defaults e =
     \<lparr>server1_up = True, server2_up = True, current_dns = SERVER1_IP e,
      last_switch_at = None, freeze = False, ttl = TTL_DEFAULT e,
      webhook_secret = None, down_threshold = 1, up_threshold = 1,
      cooldown_seconds = 0, s1_down_streak = 0, s1_up_streak = 0,
      s2_down_streak = 0, s2_up_streak = 0\<rparr>"

text \<open>
  \<^verbatim>\<open>load\<close> builds \<^verbatim>\<open>cls(**{**asdict(cls()), **data})\<close>. The constructor raises
  TypeError on a key that is no field, which the last \<^verbatim>\<open>except\<close> turns into the
  defaults. The dataclass does not check the type of a value; a stored value that does
  not inhabit its field's declared type cannot be held by the typed record, and \<open>load\<close>
  answers \<open>None\<close> for it.
\<close>

datatype kind = KBool | KInt | KStr | KOptStr

fun has_kind :: "kind \<Rightarrow> json \<Rightarrow> bool" where
  "has_kind KBool (JBool b) = True"
| "has_kind KInt (JInt n) = True"
| "has_kind KStr (JStr s) = True"
| "has_kind KOptStr (JStr s) = True"
| "has_kind KOptStr JNull = True"
| "has_kind k v = False"

definition schema :: "(string \<times> kind) list" where
  "schema =
     [(''server1_up'', KBool), (''server2_up'', KBool), (''current_dns'', KStr),
      (''last_switch_at'', KOptStr), (''freeze'', KBool), (''ttl'', KInt),
      (''webhook_secret'', KOptStr), (''down_threshold'', KInt),
      (''up_threshold'', KInt), (''cooldown_seconds'', KInt),
      (''_s1_down_streak'', KInt), (''_s1_up_streak'', KInt),
      (''_s2_down_streak'', KInt), (''_s2_up_streak'', KInt)]"

definition typed :: "(string \<times> json) list \<Rightarrow> bool" where
  "typed d =
     list_all (\<lambda>kk. case map_of d (fst kk) of None \<Rightarrow> False | Some v \<Rightarrow> has_kind (snd kk) v)
       schema"

definition get_bool :: "(string \<times> json) list \<Rightarrow> string \<Rightarrow> bool" where
  "get_bool d k = (case map_of d k of Some (JBool b) \<Rightarrow> b | _ \<Rightarrow> False)"

definition get_int :: "(string \<times> json) list \<Rightarrow> string \<Rightarrow> int" where
  "get_int d k = (case map_of d k of Some (JInt n) \<Rightarrow> n | _ \<Rightarrow> 0)"

definition get_str :: "(string \<times> json) list \<Rightarrow> string \<Rightarrow> string option" where
  "get_str d k = (case map_of d k of Some (JStr s) \<Rightarrow> Some s | _ \<Rightarrow> None)"

definition of_dict :: "(string \<times> json) list \<Rightarrow> ServiceState" where
  "of_dict d =
     \<lparr>server1_up = get_bool d ''server1_up'', server2_up = get_bool d ''server2_up'',
      current_dns = (case get_str d ''current_dns'' of None \<Rightarrow> [] | Some s \<Rightarrow> s),
      last_switch_at = get_str d ''last_switch_at'', freeze = get_bool d ''freeze'',
      ttl = get_int d ''ttl'', webhook_secret = get_str d ''webhook_secret'',
      down_threshold = get_int d ''down_threshold'',
      up_threshold = get_int d ''up_threshold'',
      cooldown_seconds = get_int d ''cooldown_seconds'',
      s1_down_streak = get_int d ''_s1_down_streak'',
      s1_up_streak = get_int d ''_s1_up_streak'',
      s2_down_streak = get_int d ''_s2_down_streak'',
      s2_up_streak = get_int d ''_s2_up_streak''\<rparr>"

text \<open>\<^verbatim>\<open>if not obj.webhook_secret: obj.webhook_secret = secrets.token_urlsafe(24)\<close>\<close>

definition ensure_secret :: "env \<Rightarrow> ServiceState \<Rightarrow> ServiceState" where
  "ensure_secret e s =
     (case webhook_secret s of
        None \<Rightarrow> s\<lparr>webhook_secret := Some (token_urlsafe e)\<rparr>
      | Some k \<Rightarrow> if k = [] then s\<lparr>webhook_secret := Some (token_urlsafe e)\<rparr> else s)"

definition load :: "env \<Rightarrow> file_content \<Rightarrow> ServiceState option" where
  "load e f =
     (case f of
        NoFile \<Rightarrow> Some ((defaults e)\<lparr>webhook_secret := Some (token_urlsafe e)\<rparr>)
      | Unreadable \<Rightarrow> Some ((defaults e)\<lparr>webhook_secret := Some (token_urlsafe e)\<rparr>)
      | Stored data \<Rightarrow>
          (let merged = foldl (\<lambda>d kv. dict_set (fst kv) (snd kv) d) (asdict (defaults e)) data
           in if list_ex (\<lambda>kv. fst kv \<notin> set (map fst schema)) merged
              then Some ((defaults e)\<lparr>webhook_secret := Some (token_urlsafe e)\<rparr>)
              else if \<not> typed merged then None
              else Some (ensure_secret e (of_dict merged))))"

section \<open>Notifier and registrar\<close>

text \<open>
  \<^verbatim>\<open>telegram_send\<close>: nothing when unconfigured; a refused or failed post is logged and
  swallowed.
\<close>

definition telegram_send :: "env \<Rightarrow> message \<Rightarrow> world \<Rightarrow> world" where
  "telegram_send e text w =
     (if \<not> telegram_configured e then w
      else case tg_post e text of
             TgOk \<Rightarrow> w\<lparr>telegrams := telegrams w @ [text]\<rparr>
           | TgNotOk \<Rightarrow> w\<lparr>logs := logs w @ [WarnTelegram]\<rparr>
           | TgRaised \<Rightarrow> w\<lparr>logs := logs w @ [WarnTelegram]\<rparr>)"

text \<open>
  The paging loop of \<^verbatim>\<open>load_dns_records\<close>. It ends when a page reports no further
  page; a registrar that always reports one more page keeps it running, which is the
  value \<open>None\<close>.
\<close>

definition keep_record :: "env \<Rightarrow> (string \<times> dns_record) list \<Rightarrow> dns_record \<Rightarrow> (string \<times> dns_record) list" where
  "keep_record e found r =
     (if DNS_RECORD_NAMES e = [] \<or> rec_name r \<in> set (DNS_RECORD_NAMES e)
      then dict_set (rec_name r) r found else found)"

partial_function (option) fetch_pages ::
  "env \<Rightarrow> int \<Rightarrow> (string \<times> dns_record) list \<Rightarrow> (error + (string \<times> dns_record) list) option"
where
  "fetch_pages e page found =
     (case cf_get e page of
        GetRaised \<Rightarrow> Some (Inl RegistrarError)
      | GetPage result info \<Rightarrow>
          (let found' = foldl (keep_record e) found result;
               total_pages = (case info of None \<Rightarrow> 1 | Some n \<Rightarrow> n)
           in if page \<ge> total_pages then Some (Inr found')
              else fetch_pages e (page + 1) found'))"

declare fetch_pages.simps [code]

definition load_dns_records :: "env \<Rightarrow> world \<Rightarrow> ((error + unit) \<times> world) option" where
  "load_dns_records e w =
     (case fetch_pages e 1 [] of
        None \<Rightarrow> None
      | Some (Inl err) \<Rightarrow> Some (Inl err, w)
      | Some (Inr found) \<Rightarrow>
          Some (Inr (), w\<lparr>cached_records := found,
                           logs := logs w @ [InfoCached (map fst found)]\<rparr>))"

section \<open>The DNS synchronizer\<close>

text \<open>
  The loop of \<^verbatim>\<open>update_dns\<close> over \<^verbatim>\<open>cached_records.items()\<close>. A record with no
  (or an empty) id is skipped; every other record gets one PUT, and the answer is only
  logged. A PUT is taken to return a response: a transport exception of
  \<^verbatim>\<open>requests.put\<close> is not modelled.
\<close>

fun put_records :: "env \<Rightarrow> string \<Rightarrow> (string \<times> dns_record) list \<Rightarrow> world \<Rightarrow> world" where
  "put_records e new_ip [] w = w"
| "put_records e new_ip ((name, record) # rest) w =
     (case rec_id record of
        None \<Rightarrow> put_records e new_ip rest w
      | Some record_id \<Rightarrow>
          if record_id = [] then put_records e new_ip rest w
          else
            (let payload =
                   \<lparr>put_id = record_id,
                    put_type = (case rec_type record of None \<Rightarrow> ''A'' | Some t \<Rightarrow> t),
                    put_name = name,
                    put_content = new_ip,
                    put_ttl = ttl (app_state w),
                    put_proxied = (case rec_proxied record of None \<Rightarrow> False | Some p \<Rightarrow> p)\<rparr>;
                 w1 = w\<lparr>puts := puts w @ [payload]\<rparr>;
                 w2 = (case cf_put e payload of
                         PutOk \<Rightarrow> w1\<lparr>logs := logs w1 @ [InfoUpdated name new_ip]\<rparr>
                       | PutNotOk code \<Rightarrow> w1\<lparr>logs := logs w1 @ [ErrorUpdateFailed name code]\<rparr>)
             in put_records e new_ip rest w2))"

definition update_dns :: "env \<Rightarrow> string \<Rightarrow> world \<Rightarrow> ((error + unit) \<times> world) option" where
  "update_dns e new_ip w =
     (case (if cached_records w = [] then load_dns_records e w else Some (Inr (), w)) of
        None \<Rightarrow> None
      | Some (Inl err, w1) \<Rightarrow> Some (Inl err, w1)
      | Some (Inr u, w1) \<Rightarrow>
          if cached_records w1 = [] then Some (Inr (), w1\<lparr>logs := logs w1 @ [ErrorNoRecords]\<rparr>)
          else
            (let w2 = put_records e new_ip (cached_records w1) w1;
                 s = (app_state w2)\<lparr>current_dns := new_ip,
                        last_switch_at := Some (isoformat e (utcnow e) @ ''Z'')\<rparr>
             in Some (Inr (), save (w2\<lparr>app_state := s\<rparr>))))"

section \<open>The failover decision engine\<close>

text \<open>\<^verbatim>\<open>last_iso.replace("Z", "+00:00")\<close>\<close>

definition replace_Z :: "string \<Rightarrow> string" where
  "replace_Z s = concat (map (\<lambda>c. if c = CHR ''Z'' then ''+00:00'' else [c]) s)"

text \<open>
  \<^verbatim>\<open>_cooldown_ok\<close>. Instants are microseconds, as \<^verbatim>\<open>datetime\<close> counts them;
  \<^verbatim>\<open>total_seconds() >= cooldown_seconds\<close> is compared on them exactly (the float that
  \<^verbatim>\<open>total_seconds\<close> returns is not modelled). A text that \<^verbatim>\<open>fromisoformat\<close> rejects
  ends in the \<^verbatim>\<open>except\<close> branch.
\<close>

definition cooldown_ok :: "env \<Rightarrow> ServiceState \<Rightarrow> string option \<Rightarrow> bool" where
  "cooldown_ok e s last_iso =
     (if cooldown_seconds s = 0 then True
      else case last_iso of
             None \<Rightarrow> True
           | Some l \<Rightarrow>
               if l = [] then True
               else (case fromisoformat e (replace_Z l) of
                       None \<Rightarrow> True
                     | Some last_dt \<Rightarrow> utcnow e - last_dt \<ge> cooldown_seconds s * 1000000))"

text \<open>The block "Update streaks for hysteresis" of \<^verbatim>\<open>decide_failover\<close>.\<close>

definition update_streaks :: "ServiceState \<Rightarrow> ServiceState" where
  "update_streaks s =
     (let s1 = (if server1_up s
                then s\<lparr>s1_up_streak := s1_up_streak s + 1, s1_down_streak := 0\<rparr>
                else s\<lparr>s1_down_streak := s1_down_streak s + 1, s1_up_streak := 0\<rparr>)
      in if server2_up s1
         then s1\<lparr>s2_up_streak := s2_up_streak s1 + 1, s2_down_streak := 0\<rparr>
         else s1\<lparr>s2_down_streak := s2_down_streak s1 + 1, s2_up_streak := 0\<rparr>)"

definition decide_failover :: "env \<Rightarrow> string \<Rightarrow> world \<Rightarrow> ((error + message) \<times> world) option" where
  "decide_failover e source w =
     (if freeze (app_state w) then
        (let msg = FrozenMsg (server1_up (app_state w)) (server2_up (app_state w))
                     (current_dns (app_state w))
         in Some (Inr msg, w\<lparr>logs := logs w @ [Info msg]\<rparr>))
      else if \<not> cooldown_ok e (app_state w) (last_switch_at (app_state w)) then
        (let msg = CooldownMsg (current_dns (app_state w))
         in Some (Inr msg, w\<lparr>logs := logs w @ [Info msg]\<rparr>))
      else
        (let s = update_streaks (app_state w);
             choose_s1 = (server1_up s \<and> (up_threshold s \<le> 1 \<or> s1_up_streak s \<ge> up_threshold s));
             choose_s2 = (\<not> server1_up s \<and> server2_up s
                          \<and> (up_threshold s \<le> 1 \<or> s2_up_streak s \<ge> up_threshold s));
             desired_ip = (if choose_s1 then SERVER1_IP e
                           else if choose_s2 then SERVER2_IP e
                           else current_dns s);
             changed = (desired_ip \<noteq> current_dns s);
             w1 = w\<lparr>app_state := s\<rparr>
         in if changed then
              (case update_dns e desired_ip w1 of
                 None \<Rightarrow> None
               | Some (Inl err, w2) \<Rightarrow> Some (Inl err, w2)
               | Some (Inr u, w2) \<Rightarrow>
                   (let msg = SwitchedMsg desired_ip source (server1_up (app_state w2))
                                (server2_up (app_state w2));
                        w3 = w2\<lparr>logs := logs w2 @ [Info msg]\<rparr>
                    in Some (Inr msg, telegram_send e msg w3)))
            else
              (let msg = NoChangeMsg (server1_up s) (server2_up s) (current_dns s);
                   w2 = w1\<lparr>logs := logs w1 @ [Info msg]\<rparr>
               in Some (Inr msg, save w2))))"

section \<open>Endpoints\<close>

text \<open>
  The handlers are taken after \<^verbatim>\<open>requires_auth\<close> has let the request through; a
  request whose body Flask refuses to decode never reaches them. \<^verbatim>\<open>check_csrf\<close> is
  the flag \<open>csrf_ok\<close>. A form field is its text when present.
\<close>

datatype response =
    Aborted nat
  | ServerError
  | HeartbeatAck bool bool message
  | HxRefresh

text \<open>
  \<^verbatim>\<open>int(x)\<close> on a decoded JSON value: \<open>None\<close> is the exception that
  \<^verbatim>\<open>_parse_status\<close> catches.
\<close>

fun py_int :: "env \<Rightarrow> json \<Rightarrow> int option" where
  "py_int e (JInt n) = Some n"
| "py_int e (JBool b) = Some (if b then 1 else 0)"
| "py_int e (JStr s) = int_of_str e s"
| "py_int e JNull = None"
| "py_int e (JArr xs) = None"
| "py_int e (JObj kvs) = None"

text \<open>
  \<^verbatim>\<open>_parse_status\<close>: \<^verbatim>\<open>int(body.get("heartbeat", {}).get("status", 0)) == 1\<close>, and
  \<open>False\<close> on any exception (a body or a heartbeat that is no object has no
  \<^verbatim>\<open>get\<close>).
\<close>

definition parse_status :: "env \<Rightarrow> json \<Rightarrow> bool" where
  "parse_status e body =
     (case body of
        JObj b \<Rightarrow>
          (case (case map_of b ''heartbeat'' of None \<Rightarrow> JObj [] | Some h \<Rightarrow> h) of
             JObj hb \<Rightarrow>
               (case py_int e (case map_of hb ''status'' of None \<Rightarrow> JInt 0 | Some v \<Rightarrow> v) of
                  None \<Rightarrow> False
                | Some n \<Rightarrow> n = 1)
           | _ \<Rightarrow> False)
      | _ \<Rightarrow> False)"

text \<open>\<^verbatim>\<open>_check_webhook_secret\<close>, as the condition under which it does not abort.\<close>

definition check_webhook_secret :: "string option \<Rightarrow> ServiceState \<Rightarrow> bool" where
  "check_webhook_secret header s =
     (case header of
        None \<Rightarrow> False
      | Some secret \<Rightarrow>
          secret \<noteq> [] \<and>
          (case webhook_secret s of
             None \<Rightarrow> False
           | Some k \<Rightarrow> k \<noteq> [] \<and> secret = k))"

definition webhook_server1 ::
  "env \<Rightarrow> string option \<Rightarrow> json \<Rightarrow> world \<Rightarrow> (response \<times> world) option" where
  "webhook_server1 e header body w =
     (if \<not> check_webhook_secret header (app_state w) then Some (Aborted 401, w)
      else
        (let is_up = parse_status e (if truthy body then body else JObj []);
             w1 = w\<lparr>app_state := (app_state w)\<lparr>server1_up := is_up\<rparr>\<rparr>
         in case decide_failover e ''webhook:s1'' w1 of
              None \<Rightarrow> None
            | Some (Inl err, w2) \<Rightarrow> Some (ServerError, w2)
            | Some (Inr msg, w2) \<Rightarrow>
                Some (HeartbeatAck is_up (server2_up (app_state w2)) msg, w2)))"

definition webhook_server2 ::
  "env \<Rightarrow> string option \<Rightarrow> json \<Rightarrow> world \<Rightarrow> (response \<times> world) option" where
  "webhook_server2 e header body w =
     (if \<not> check_webhook_secret header (app_state w) then Some (Aborted 401, w)
      else
        (let is_up = parse_status e (if truthy body then body else JObj []);
             w1 = w\<lparr>app_state := (app_state w)\<lparr>server2_up := is_up\<rparr>\<rparr>
         in case decide_failover e ''webhook:s2'' w1 of
              None \<Rightarrow> None
            | Some (Inl err, w2) \<Rightarrow> Some (ServerError, w2)
            | Some (Inr msg, w2) \<Rightarrow>
                Some (HeartbeatAck (server1_up (app_state w2)) is_up msg, w2)))"

text \<open>\<^verbatim>\<open>str.lower\<close> on the ASCII letters.\<close>

definition lower :: "string \<Rightarrow> string" where
  "lower s =
     map (\<lambda>c. if 65 \<le> (of_char c :: nat) \<and> (of_char c :: nat) \<le> 90
               then char_of ((of_char c :: nat) + 32) else c) s"

definition api_switch ::
  "env \<Rightarrow> bool \<Rightarrow> string option \<Rightarrow> world \<Rightarrow> (response \<times> world) option" where
  "api_switch e csrf_ok field w =
     (if \<not> csrf_ok then Some (Aborted 400, w)
      else
        (let target = lower (case field of None \<Rightarrow> [] | Some t \<Rightarrow> t)
         in if target \<noteq> ''server1'' \<and> target \<noteq> ''server2'' then Some (Aborted 400, w)
            else
              (let ip = (if target = ''server1'' then SERVER1_IP e else SERVER2_IP e)
               in case update_dns e ip w of
                    None \<Rightarrow> None
                  | Some (Inl err, w1) \<Rightarrow> Some (ServerError, w1)
                  | Some (Inr u, w1) \<Rightarrow>
                      Some (HxRefresh, w1\<lparr>logs := logs w1 @ [InfoManualSwitch ip target]\<rparr>))))"

definition api_freeze :: "bool \<Rightarrow> string option \<Rightarrow> world \<Rightarrow> response \<times> world" where
  "api_freeze csrf_ok field w =
     (if \<not> csrf_ok then (Aborted 400, w)
      else
        (let enabled = (lower (case field of None \<Rightarrow> ''false'' | Some t \<Rightarrow> t)
                          \<in> {''1'', ''true'', ''yes'', ''on''})
         in (HxRefresh, save (w\<lparr>app_state := (app_state w)\<lparr>freeze := enabled\<rparr>\<rparr>))))"

text \<open>The views of the state that leave the process as JSON.\<close>

definition opt_json :: "('a \<Rightarrow> json) \<Rightarrow> 'a option \<Rightarrow> json" where
  "opt_json f x = (case x of None \<Rightarrow> JNull | Some v \<Rightarrow> f v)"

definition record_view :: "dns_record \<Rightarrow> json" where
  "record_view r =
     JObj [(''type'', opt_json JStr (rec_type r)), (''content'', opt_json JStr (rec_content r)),
           (''ttl'', opt_json JInt (rec_ttl r)), (''proxied'', opt_json JBool (rec_proxied r))]"

definition api_status :: "world \<Rightarrow> json" where
  "api_status w =
     JObj [(''state'', JObj (to_public (app_state w))),
           (''records'', JObj (map (\<lambda>kv. (fst kv, record_view (snd kv))) (cached_records w)))]"

definition api_config :: "env \<Rightarrow> world \<Rightarrow> json" where
  "api_config e w =
     JObj [(''env'', JObj [(''CLOUDFLARE_ZONE_ID'', JStr (CLOUDFLARE_ZONE_ID e)),
                           (''DNS_RECORD_NAMES'', JArr (map JStr (DNS_RECORD_NAMES e))),
                           (''SERVER1_IP'', JStr (SERVER1_IP e)),
                           (''SERVER2_IP'', JStr (SERVER2_IP e)),
                           (''TTL_DEFAULT'', JInt (TTL_DEFAULT e))]),
           (''state'', JObj (to_public (app_state w)))]"

definition api_webhook_secret_get :: json where
  "api_webhook_secret_get = JObj [(''webhook_secret'', JStr ''***'')]"

section \<open>Specification-side definitions\<close>

text \<open>
  The desired target in the words of the specification: target 1 is eligible if it is up
  and the threshold is at most 1 or its up-streak has reached the threshold; target 2 is
  eligible only if target 1 is down and target 2 passes the same rule on its own streak;
  otherwise the published value is kept.
\<close>

definition spec_desired :: "env \<Rightarrow> ServiceState \<Rightarrow> string" where
  "spec_desired e s =
     (let eligible1 = (server1_up s \<and> (up_threshold s \<le> 1 \<or> s1_up_streak s \<ge> up_threshold s));
          eligible2 = (\<not> server1_up s \<and>
                       (server2_up s \<and> (up_threshold s \<le> 1 \<or> s2_up_streak s \<ge> up_threshold s)))
      in if eligible1 then SERVER1_IP e else if eligible2 then SERVER2_IP e else current_dns s)"

text \<open>The instant stamped by a publication at the environment's clock.\<close>

definition stamp :: "env \<Rightarrow> string" where
  "stamp e = isoformat e (utcnow e) @ ''Z''"

text \<open>A decision is held when the service is frozen or the cooldown has not elapsed.\<close>

definition held :: "env \<Rightarrow> ServiceState \<Rightarrow> bool" where
  "held e s = (freeze s \<or> \<not> cooldown_ok e s (last_switch_at s))"



text \<open>
  The status field of a heartbeat body, when the body and its heartbeat are objects and
  the field is there; a body is malformed when the field is missing or \<^verbatim>\<open>int\<close>
  rejects its value.
\<close>

definition status_field :: "json \<Rightarrow> json option" where
  "status_field body =
     (case body of
        JObj b \<Rightarrow> (case map_of b ''heartbeat'' of
                     Some (JObj hb) \<Rightarrow> map_of hb ''status''
                   | _ \<Rightarrow> None)
      | _ \<Rightarrow> None)"

definition malformed :: "env \<Rightarrow> json \<Rightarrow> bool" where
  "malformed e body =
     (case status_field body of None \<Rightarrow> True | Some v \<Rightarrow> py_int e v = None)"

text \<open>A run of heartbeats, each presenting the secret \<open>k\<close>, delivered in order.\<close>

datatype target = Server1 | Server2

fun deliver :: "env \<Rightarrow> string \<Rightarrow> (target \<times> json) list \<Rightarrow> world \<Rightarrow> world option" where
  "deliver e k [] w = Some w"
| "deliver e k ((Server1, body) # rest) w =
     (case webhook_server1 e (Some k) body w of
        None \<Rightarrow> None
      | Some (r, w') \<Rightarrow> deliver e k rest w')"
| "deliver e k ((Server2, body) # rest) w =
     (case webhook_server2 e (Some k) body w of
        None \<Rightarrow> None
      | Some (r, w') \<Rightarrow> deliver e k rest w')"

section \<open>A concrete deployment\<close>

text \<open>
  Two targets, one managed record, the clock at 100 s; the only instant the parser below
  knows is 40 s. The state is the one a first start loads.
\<close>

definition demo_env :: env where
  "demo_env =
     \<lparr>CLOUDFLARE_ZONE_ID = ''zone'',
      SERVER1_IP = ''1.2.3.4'', SERVER2_IP = ''5.6.7.8'', DNS_RECORD_NAMES = [],
      TTL_DEFAULT = 60, telegram_configured = False, utcnow = 100000000,
      isoformat = (\<lambda>t. if t = 100000000 then ''1970-01-01T00:01:40'' else ''?''),
      fromisoformat = (\<lambda>s. if s = ''1970-01-01T00:00:40+00:00'' then Some 40000000 else None),
      int_of_str = (\<lambda>s. if s = ''1'' then Some 1 else if s = ''0'' then Some 0 else None),
      token_urlsafe = ''tok'',
      cf_get = (\<lambda>p. GetPage [] None),
      cf_put = (\<lambda>r. if put_id r = ''r2'' then PutNotOk 500 else PutOk),
      tg_post = (\<lambda>m. TgOk)\<rparr>"

definition demo_record :: "string \<Rightarrow> string option \<Rightarrow> dns_record" where
  "demo_record n i =
     \<lparr>rec_name = n, rec_id = i, rec_type = Some ''A'', rec_content = Some ''1.2.3.4'',
      rec_ttl = Some 60, rec_proxied = Some False\<rparr>"

definition demo_state :: ServiceState where
  "demo_state = (defaults demo_env)\<lparr>webhook_secret := Some ''tok''\<rparr>"

definition demo_world :: world where
  "demo_world =
     \<lparr>app_state = demo_state,
      cached_records = [(''a.example.com'', demo_record ''a.example.com'' (Some ''r1''))],
      state_file = NoFile, logs = [], puts = [], telegrams = []\<rparr>"

definition hb_body :: "int \<Rightarrow> json" where
  "hb_body n = JObj [(''heartbeat'', JObj [(''status'', JInt n)])]"

text \<open>The four streak counters of a state, in the order up 1, down 1, up 2, down 2.\<close>

definition streaks :: "ServiceState \<Rightarrow> int \<times> int \<times> int \<times> int" where
  "streaks s = (s1_up_streak s, s1_down_streak s, s2_up_streak s, s2_down_streak s)"

text \<open>
  Target 1 down, a cooldown of \<open>c\<close> seconds, and a last switch 60 s before the clock
  of the deployment.
\<close>

definition cooling :: "int \<Rightarrow> world" where
  "cooling c =
     demo_world\<lparr>app_state := demo_state\<lparr>server1_up := False, cooldown_seconds := c,
                   last_switch_at := Some ''1970-01-01T00:00:40Z''\<rparr>\<rparr>"

text \<open>Target 1 down while the service is frozen.\<close>

definition frozen_world :: world where
  "frozen_world = demo_world\<lparr>app_state := demo_state\<lparr>server1_up := False, freeze := True\<rparr>\<rparr>"

text \<open>Frozen and inside a cooldown of 120 s at once.\<close>

definition locked_world :: world where
  "locked_world =
     demo_world\<lparr>app_state := demo_state\<lparr>server1_up := False, freeze := True,
                   cooldown_seconds := 120,
                   last_switch_at := Some ''1970-01-01T00:00:40Z''\<rparr>\<rparr>"



text \<open>
  The state a decision that is not held leaves when the synchronizer has a cached record:
  the counters updated and, when the desired target differs from the published one, the
  target published and the switch stamped.
\<close>

definition after_decision :: "env \<Rightarrow> ServiceState \<Rightarrow> ServiceState" where
  "after_decision e s =
     (let s' = update_streaks s; d = spec_desired e s'
      in if d = current_dns s' then s'
         else s'\<lparr>current_dns := d, last_switch_at := Some (stamp e)\<rparr>)"

text \<open>The published target after a run of heartbeats.\<close>

definition current :: "world option \<Rightarrow> string option" where
  "current r = map_option (\<lambda>w. current_dns (app_state w)) r"

text \<open>
  The deployment with \<^verbatim>\<open>up_threshold = 2\<close> after one evaluated decision with target 2
  up, and the same after a failover to target 2.
\<close>

definition thr2_world :: world where
  "thr2_world = demo_world\<lparr>app_state := demo_state\<lparr>up_threshold := 2, s2_up_streak := 1\<rparr>\<rparr>"

definition failed_over_world :: world where
  "failed_over_world =
     demo_world\<lparr>app_state := demo_state\<lparr>server1_up := False, up_threshold := 2,
                   current_dns := ''5.6.7.8''\<rparr>\<rparr>"

section \<open>Properties\<close>

lemma update_streaks_keeps [simp]:
  "server1_up (update_streaks s) = server1_up s"
  "server2_up (update_streaks s) = server2_up s"
  "current_dns (update_streaks s) = current_dns s"
  "last_switch_at (update_streaks s) = last_switch_at s"
  "freeze (update_streaks s) = freeze s"
  "ttl (update_streaks s) = ttl s"
  "webhook_secret (update_streaks s) = webhook_secret s"
  "up_threshold (update_streaks s) = up_threshold s"
  "down_threshold (update_streaks s) = down_threshold s"
  "cooldown_seconds (update_streaks s) = cooldown_seconds s"
  by (simp_all add: update_streaks_def Let_def)

lemma update_streaks_counters:
  "s1_up_streak (update_streaks s) = (if server1_up s then s1_up_streak s + 1 else 0)"
  "s1_down_streak (update_streaks s) = (if server1_up s then 0 else s1_down_streak s + 1)"
  "s2_up_streak (update_streaks s) = (if server2_up s then s2_up_streak s + 1 else 0)"
  "s2_down_streak (update_streaks s) = (if server2_up s then 0 else s2_down_streak s + 1)"
  by (simp_all add: update_streaks_def Let_def)

lemma put_records_keeps [simp]:
  "app_state (put_records e ip rs w) = app_state w"
  "cached_records (put_records e ip rs w) = cached_records w"
  "state_file (put_records e ip rs w) = state_file w"
  "telegrams (put_records e ip rs w) = telegrams w"
  by (induction e ip rs w rule: put_records.induct; simp add: Let_def split: option.splits put_response.splits)+

lemma telegram_send_keeps [simp]:
  "app_state (telegram_send e m w) = app_state w"
  "cached_records (telegram_send e m w) = cached_records w"
  "state_file (telegram_send e m w) = state_file w"
  "puts (telegram_send e m w) = puts w"
  by (simp_all add: telegram_send_def split: tg_response.splits)

lemma save_keeps [simp]:
  "app_state (save w) = app_state w"
  "cached_records (save w) = cached_records w"
  "state_file (save w) = Stored (asdict (app_state w))"
  "puts (save w) = puts w"
  "logs (save w) = logs w"
  "telegrams (save w) = telegrams w"
  by (simp_all add: save_def)

lemma update_dns_cached:
  "cached_records w \<noteq> [] \<Longrightarrow>
   update_dns e ip w =
     Some (Inr (), save ((put_records e ip (cached_records w) w)
       \<lparr>app_state := (app_state w)\<lparr>current_dns := ip, last_switch_at := Some (stamp e)\<rparr>\<rparr>))"
  by (simp add: update_dns_def Let_def stamp_def)

lemma decide_frozen:
  "freeze (app_state w) \<Longrightarrow>
   decide_failover e src w =
     Some (Inr (FrozenMsg (server1_up (app_state w)) (server2_up (app_state w)) (current_dns (app_state w))),
       w\<lparr>logs := logs w @ [Info (FrozenMsg (server1_up (app_state w)) (server2_up (app_state w))
                                 (current_dns (app_state w)))]\<rparr>)"
  by (simp add: decide_failover_def Let_def)

lemma decide_cooldown:
  "\<not> freeze (app_state w) \<Longrightarrow> \<not> cooldown_ok e (app_state w) (last_switch_at (app_state w)) \<Longrightarrow>
   decide_failover e src w =
     Some (Inr (CooldownMsg (current_dns (app_state w))),
       w\<lparr>logs := logs w @ [Info (CooldownMsg (current_dns (app_state w)))]\<rparr>)"
  by (simp add: decide_failover_def Let_def)

lemma decide_evaluated:
  assumes "\<not> held e (app_state w)"
  shows "decide_failover e src w =
     (let s = update_streaks (app_state w); d = spec_desired e s
      in if d = current_dns (app_state w)
         then Some (Inr (NoChangeMsg (server1_up s) (server2_up s) (current_dns s)),
                save (w\<lparr>app_state := s,
                  logs := logs w @ [Info (NoChangeMsg (server1_up s) (server2_up s) (current_dns s))]\<rparr>))
         else (case update_dns e d (w\<lparr>app_state := s\<rparr>) of
                 None \<Rightarrow> None
               | Some (Inl err, w2) \<Rightarrow> Some (Inl err, w2)
               | Some (Inr u, w2) \<Rightarrow>
                   Some (Inr (SwitchedMsg d src (server1_up (app_state w2)) (server2_up (app_state w2))),
                     telegram_send e (SwitchedMsg d src (server1_up (app_state w2)) (server2_up (app_state w2)))
                       (w2\<lparr>logs := logs w2 @
                          [Info (SwitchedMsg d src (server1_up (app_state w2)) (server2_up (app_state w2)))]\<rparr>))))"
  using assms
  by (simp add: held_def decide_failover_def spec_desired_def Let_def split: option.splits sum.splits prod.splits)

lemma decide_evaluated_cached:
  assumes "\<not> held e (app_state w)" and "cached_records w \<noteq> []"
  shows "\<exists>msg w'. decide_failover e src w = Some (Inr msg, w') \<and>
           current_dns (app_state w') = spec_desired e (update_streaks (app_state w))"
proof (cases "spec_desired e (update_streaks (app_state w)) = current_dns (app_state w)")
  case True
  then show ?thesis
    by (simp add: decide_evaluated [OF assms(1)] Let_def)
next
  case False
  have c: "cached_records (w\<lparr>app_state := update_streaks (app_state w)\<rparr>) \<noteq> []"
    using assms(2) by simp
  show ?thesis
    using False by (simp add: decide_evaluated [OF assms(1)] Let_def update_dns_cached [OF c])
qed

lemma both_down_desired:
  "\<not> server1_up s \<Longrightarrow> \<not> server2_up s \<Longrightarrow> spec_desired e (update_streaks s) = current_dns s"
  by (simp add: spec_desired_def Let_def)

text \<open>
  Claim C1. A decision that is not held (not frozen, cooldown elapsed) computes the desired
  target as the specification words it, on the streak counters as the decision has just
  updated them: target 1's address if target 1 is up and the threshold is at most 1 or its
  up-streak has reached it; else target 2's address if target 1 is down, target 2 is up and
  passes the same rule on its own streak; else the published value. When the desired
  target is the published one the state is saved and nothing is sent; otherwise the
  synchronizer is called with exactly that target, and with a cached record the published
  value becomes it. With both targets down the decision is a hold: the published value
  stays and no request is sent.
\<close>

theorem decide_failover_desired_target:
  assumes "\<not> held e (app_state w)"
  shows "decide_failover e src w =
     (let s = update_streaks (app_state w); d = spec_desired e s
      in if d = current_dns (app_state w)
         then Some (Inr (NoChangeMsg (server1_up s) (server2_up s) (current_dns s)),
                save (w\<lparr>app_state := s,
                  logs := logs w @ [Info (NoChangeMsg (server1_up s) (server2_up s) (current_dns s))]\<rparr>))
         else (case update_dns e d (w\<lparr>app_state := s\<rparr>) of
                 None \<Rightarrow> None
               | Some (Inl err, w2) \<Rightarrow> Some (Inl err, w2)
               | Some (Inr u, w2) \<Rightarrow>
                   Some (Inr (SwitchedMsg d src (server1_up (app_state w2)) (server2_up (app_state w2))),
                     telegram_send e (SwitchedMsg d src (server1_up (app_state w2)) (server2_up (app_state w2)))
                       (w2\<lparr>logs := logs w2 @
                          [Info (SwitchedMsg d src (server1_up (app_state w2)) (server2_up (app_state w2)))]\<rparr>))))
     \<and> (cached_records w \<noteq> [] \<longrightarrow>
          (\<exists>msg w'. decide_failover e src w = Some (Inr msg, w') \<and>
             current_dns (app_state w') = spec_desired e (update_streaks (app_state w))))
     \<and> (\<not> server1_up (app_state w) \<and> \<not> server2_up (app_state w) \<longrightarrow>
          (\<exists>w'. decide_failover e src w =
                   Some (Inr (NoChangeMsg False False (current_dns (app_state w))), w') \<and>
                 current_dns (app_state w') = current_dns (app_state w) \<and>
                 puts w' = puts w))"
proof (intro conjI impI)
  show "decide_failover e src w =
     (let s = update_streaks (app_state w); d = spec_desired e s
      in if d = current_dns (app_state w)
         then Some (Inr (NoChangeMsg (server1_up s) (server2_up s) (current_dns s)),
                save (w\<lparr>app_state := s,
                  logs := logs w @ [Info (NoChangeMsg (server1_up s) (server2_up s) (current_dns s))]\<rparr>))
         else (case update_dns e d (w\<lparr>app_state := s\<rparr>) of
                 None \<Rightarrow> None
               | Some (Inl err, w2) \<Rightarrow> Some (Inl err, w2)
               | Some (Inr u, w2) \<Rightarrow>
                   Some (Inr (SwitchedMsg d src (server1_up (app_state w2)) (server2_up (app_state w2))),
                     telegram_send e (SwitchedMsg d src (server1_up (app_state w2)) (server2_up (app_state w2)))
                       (w2\<lparr>logs := logs w2 @
                          [Info (SwitchedMsg d src (server1_up (app_state w2)) (server2_up (app_state w2)))]\<rparr>))))"
    by (rule decide_evaluated [OF assms])
next
  assume "cached_records w \<noteq> []"
  then show "\<exists>msg w'. decide_failover e src w = Some (Inr msg, w') \<and>
             current_dns (app_state w') = spec_desired e (update_streaks (app_state w))"
    by (rule decide_evaluated_cached [OF assms])
next
  assume "\<not> server1_up (app_state w) \<and> \<not> server2_up (app_state w)"
  then show "\<exists>w'. decide_failover e src w =
                   Some (Inr (NoChangeMsg False False (current_dns (app_state w))), w') \<and>
                 current_dns (app_state w') = current_dns (app_state w) \<and>
                 puts w' = puts w"
    by (simp add: decide_evaluated [OF assms] Let_def both_down_desired)
qed

lemmas demo_defs = demo_env_def demo_world_def demo_state_def demo_record_def defaults_def
  hb_body_def held_def cooldown_ok_def stamp_def

theorem decide_failover_desired_target_witness:
  "\<not> held demo_env (app_state (demo_world\<lparr>app_state := demo_state\<lparr>server1_up := False\<rparr>\<rparr>))
   \<and> (\<exists>msg w'. decide_failover demo_env ''auto''
                  (demo_world\<lparr>app_state := demo_state\<lparr>server1_up := False\<rparr>\<rparr>) = Some (Inr msg, w')
        \<and> current_dns (app_state w') = ''5.6.7.8'')"
proof -
  have h: "\<not> held demo_env (app_state (demo_world\<lparr>app_state := demo_state\<lparr>server1_up := False\<rparr>\<rparr>))"
    by (simp add: demo_defs)
  have c: "cached_records (demo_world\<lparr>app_state := demo_state\<lparr>server1_up := False\<rparr>\<rparr>) \<noteq> []"
    by (simp add: demo_defs)
  have d: "spec_desired demo_env (update_streaks (app_state (demo_world\<lparr>app_state := demo_state\<lparr>server1_up := False\<rparr>\<rparr>))) = ''5.6.7.8''"
    by (simp add: demo_defs spec_desired_def update_streaks_def Let_def)
  note t = decide_failover_desired_target [OF h, of "''auto''"]
  from t [THEN conjunct2, THEN conjunct1] c d h show ?thesis
    by simp
qed

lemma cooldown_ok_parsed:
  assumes "cooldown_seconds s = C" and "0 < C" and "l \<noteq> []"
    and "fromisoformat e (replace_Z l) = Some t"
  shows "cooldown_ok e s (Some l) = (C * 1000000 \<le> utcnow e - t)"
  using assms by (simp add: cooldown_ok_def)

lemma cooldown_ok_cong:
  "cooldown_seconds s' = cooldown_seconds s \<Longrightarrow> cooldown_ok e s' l = cooldown_ok e s l"
  by (auto simp add: cooldown_ok_def split: option.splits)

text \<open>
  Claim C3. With a cooldown of \<open>C > 0\<close> seconds and a last switch at the instant \<open>t\<close>
  that \<^verbatim>\<open>last_switch_at\<close> denotes: a decision made less than \<open>C\<close> seconds after
  \<open>t\<close> is a hold (the cooldown hold, or the frozen hold when the service is frozen as
  well, which is checked first) that leaves the whole state, the state file and the
  registrar untouched, whatever the health flags are; once \<open>C\<close> seconds have elapsed, an
  unfrozen decision whose desired target differs from the published one switches to it
  and stamps the switch.
\<close>

theorem cooldown_holds_then_releases:
  assumes "cooldown_seconds (app_state w) = C" and "0 < C"
    and "last_switch_at (app_state w) = Some l" and "l \<noteq> []"
    and "fromisoformat e (replace_Z l) = Some t"
  shows "(utcnow e - t < C * 1000000 \<longrightarrow>
           (\<exists>msg w'. decide_failover e src w = Some (Inr msg, w') \<and>
              msg = (if freeze (app_state w)
                     then FrozenMsg (server1_up (app_state w)) (server2_up (app_state w))
                            (current_dns (app_state w))
                     else CooldownMsg (current_dns (app_state w))) \<and>
              app_state w' = app_state w \<and> puts w' = puts w \<and>
              state_file w' = state_file w \<and> logs w' = logs w @ [Info msg]))
       \<and> (C * 1000000 \<le> utcnow e - t \<and> \<not> freeze (app_state w) \<and> cached_records w \<noteq> [] \<and>
            spec_desired e (update_streaks (app_state w)) \<noteq> current_dns (app_state w) \<longrightarrow>
           (\<exists>msg w'. decide_failover e src w = Some (Inr msg, w') \<and>
              msg = SwitchedMsg (spec_desired e (update_streaks (app_state w))) src
                      (server1_up (app_state w)) (server2_up (app_state w)) \<and>
              current_dns (app_state w') = spec_desired e (update_streaks (app_state w)) \<and>
              last_switch_at (app_state w') = Some (stamp e)))"
proof (intro conjI impI)
  assume early: "utcnow e - t < C * 1000000"
  have nok: "\<not> cooldown_ok e (app_state w) (last_switch_at (app_state w))"
    using early cooldown_ok_parsed [OF assms(1,2,4,5)] assms(3) by simp
  show "\<exists>msg w'. decide_failover e src w = Some (Inr msg, w') \<and>
              msg = (if freeze (app_state w)
                     then FrozenMsg (server1_up (app_state w)) (server2_up (app_state w))
                            (current_dns (app_state w))
                     else CooldownMsg (current_dns (app_state w))) \<and>
              app_state w' = app_state w \<and> puts w' = puts w \<and>
              state_file w' = state_file w \<and> logs w' = logs w @ [Info msg]"
  proof (cases "freeze (app_state w)")
    case True
    then show ?thesis by (simp add: decide_frozen)
  next
    case False
    then show ?thesis using nok by (simp add: decide_cooldown)
  qed
next
  assume late: "C * 1000000 \<le> utcnow e - t \<and> \<not> freeze (app_state w) \<and> cached_records w \<noteq> [] \<and>
            spec_desired e (update_streaks (app_state w)) \<noteq> current_dns (app_state w)"
  have ok: "cooldown_ok e (app_state w) (last_switch_at (app_state w))"
    using late cooldown_ok_parsed [OF assms(1,2,4,5)] assms(3) by simp
  have nh: "\<not> held e (app_state w)"
    using ok late by (simp add: held_def)
  have c: "cached_records (w\<lparr>app_state := update_streaks (app_state w)\<rparr>) \<noteq> []"
    using late by simp
  show "\<exists>msg w'. decide_failover e src w = Some (Inr msg, w') \<and>
              msg = SwitchedMsg (spec_desired e (update_streaks (app_state w))) src
                      (server1_up (app_state w)) (server2_up (app_state w)) \<and>
              current_dns (app_state w') = spec_desired e (update_streaks (app_state w)) \<and>
              last_switch_at (app_state w') = Some (stamp e)"
    using late by (simp add: decide_evaluated [OF nh] Let_def update_dns_cached [OF c])
qed

theorem cooldown_holds_then_releases_witness:
  "(\<exists>w'. decide_failover demo_env ''auto'' (cooling 120) = Some (Inr (CooldownMsg ''1.2.3.4''), w')
         \<and> app_state w' = app_state (cooling 120))
   \<and> (\<exists>w'. decide_failover demo_env ''auto'' (cooling 30)
              = Some (Inr (SwitchedMsg ''5.6.7.8'' ''auto'' False True), w')
         \<and> current_dns (app_state w') = ''5.6.7.8'')"
proof -
  have p: "fromisoformat demo_env (replace_Z ''1970-01-01T00:00:40Z'') = Some 40000000"
    by (simp add: demo_env_def replace_Z_def)
  have a: "cooldown_seconds (app_state (cooling 120)) = 120"
       "last_switch_at (app_state (cooling 120)) = Some ''1970-01-01T00:00:40Z''"
       "cooldown_seconds (app_state (cooling 30)) = 30"
       "last_switch_at (app_state (cooling 30)) = Some ''1970-01-01T00:00:40Z''"
    by (simp_all add: cooling_def)
  have d: "spec_desired demo_env (update_streaks (app_state (cooling 30))) = ''5.6.7.8''"
    by (simp add: cooling_def demo_defs spec_desired_def update_streaks_def Let_def)
  have f: "\<not> freeze (app_state (cooling 120))" "\<not> freeze (app_state (cooling 30))"
       "cached_records (cooling 30) \<noteq> []" "current_dns (app_state (cooling 30)) = ''1.2.3.4''"
       "current_dns (app_state (cooling 120)) = ''1.2.3.4''"
       "server1_up (app_state (cooling 30)) = False" "server2_up (app_state (cooling 30)) = True"
       "utcnow demo_env = 100000000"
    by (simp_all add: cooling_def demo_defs)
  note t1 = cooldown_holds_then_releases [OF a(1) _ a(2) _ p, of "''auto''", THEN conjunct1]
  note t2 = cooldown_holds_then_releases [OF a(3) _ a(4) _ p, of "''auto''", THEN conjunct2]
  from t1 t2 d f show ?thesis
    by auto
qed

text \<open>
  Claim C4. While \<^verbatim>\<open>freeze\<close> is set, a decision returns the frozen message and changes
  neither the state (so neither the published target nor the streak counters), nor the
  state file, nor the cache, and sends nothing, whatever the health flags are. After the
  freeze endpoint has cleared the flag, the next decision is evaluated: with the cooldown
  elapsed and a cached record, the published value becomes the desired target.
\<close>

theorem freeze_holds_then_reevaluates:
  "(freeze (app_state w) \<longrightarrow>
      (\<exists>w'. decide_failover e src w =
               Some (Inr (FrozenMsg (server1_up (app_state w)) (server2_up (app_state w))
                            (current_dns (app_state w))), w') \<and>
             app_state w' = app_state w \<and> puts w' = puts w \<and>
             state_file w' = state_file w \<and> cached_records w' = cached_records w))
   \<and> (lower f \<notin> {''1'', ''true'', ''yes'', ''on''} \<longrightarrow>
        \<not> freeze (app_state (snd (api_freeze True (Some f) w))) \<and>
        (cooldown_ok e (app_state w) (last_switch_at (app_state w)) \<and> cached_records w \<noteq> [] \<longrightarrow>
           (\<exists>msg w'. decide_failover e src (snd (api_freeze True (Some f) w)) = Some (Inr msg, w') \<and>
              current_dns (app_state w') = spec_desired e (update_streaks (app_state w)))))"
proof (intro conjI impI)
  assume "freeze (app_state w)"
  then show "\<exists>w'. decide_failover e src w =
               Some (Inr (FrozenMsg (server1_up (app_state w)) (server2_up (app_state w))
                            (current_dns (app_state w))), w') \<and>
             app_state w' = app_state w \<and> puts w' = puts w \<and>
             state_file w' = state_file w \<and> cached_records w' = cached_records w"
    by (simp add: decide_frozen)
next
  assume "lower f \<notin> {''1'', ''true'', ''yes'', ''on''}"
  then show "\<not> freeze (app_state (snd (api_freeze True (Some f) w)))"
    by (simp add: api_freeze_def Let_def)
next
  assume off: "lower f \<notin> {''1'', ''true'', ''yes'', ''on''}"
    and ok: "cooldown_ok e (app_state w) (last_switch_at (app_state w)) \<and> cached_records w \<noteq> []"
  let ?w1 = "snd (api_freeze True (Some f) w)"
  have st: "app_state ?w1 = (app_state w)\<lparr>freeze := False\<rparr>" and c: "cached_records ?w1 \<noteq> []"
    using off ok by (simp_all add: api_freeze_def Let_def)
  have nh: "\<not> held e (app_state ?w1)"
    using ok
    by (simp add: st held_def cooldown_ok_cong [of "(app_state w)\<lparr>freeze := False\<rparr>" "app_state w"])
  have d: "spec_desired e (update_streaks (app_state ?w1)) = spec_desired e (update_streaks (app_state w))"
    by (simp add: st spec_desired_def update_streaks_def Let_def)
  from decide_evaluated_cached [OF nh c, of src] d
  show "\<exists>msg w'. decide_failover e src ?w1 = Some (Inr msg, w') \<and>
              current_dns (app_state w') = spec_desired e (update_streaks (app_state w))"
    by simp
qed

theorem freeze_holds_then_reevaluates_witness:
  "freeze (app_state frozen_world)
   \<and> (\<exists>w'. decide_failover demo_env ''auto'' frozen_world
              = Some (Inr (FrozenMsg False True ''1.2.3.4''), w')
         \<and> app_state w' = app_state frozen_world)
   \<and> lower ''false'' \<notin> {''1'', ''true'', ''yes'', ''on''}
   \<and> (\<exists>msg w'. decide_failover demo_env ''auto'' (snd (api_freeze True (Some ''false'') frozen_world))
              = Some (Inr msg, w')
         \<and> current_dns (app_state w') = ''5.6.7.8'')"
proof -
  have fz: "freeze (app_state frozen_world)"
    by (simp add: frozen_world_def)
  have off: "lower ''false'' \<notin> {''1'', ''true'', ''yes'', ''on''}"
    by (simp add: lower_def)
  have ok: "cooldown_ok demo_env (app_state frozen_world) (last_switch_at (app_state frozen_world))
            \<and> cached_records frozen_world \<noteq> []"
    by (simp add: frozen_world_def demo_defs)
  have d: "spec_desired demo_env (update_streaks (app_state frozen_world)) = ''5.6.7.8''"
    by (simp add: frozen_world_def demo_defs spec_desired_def update_streaks_def Let_def)
  have v: "server1_up (app_state frozen_world) = False" "server2_up (app_state frozen_world) = True"
       "current_dns (app_state frozen_world) = ''1.2.3.4''"
    by (simp_all add: frozen_world_def demo_defs)
  note t = freeze_holds_then_reevaluates [of frozen_world demo_env "''auto''" "''false''"]
  from t [THEN conjunct1] t [THEN conjunct2] fz off ok d v show ?thesis
    by auto
qed



text \<open>
  Claim C7. Called with an empty cache, \<^verbatim>\<open>update_dns\<close> refreshes the cache first. When
  the refresh finds no record, it logs the no-records error and returns with the state,
  the state file and the registrar untouched: \<^verbatim>\<open>current_dns\<close> and
  \<^verbatim>\<open>last_switch_at\<close> keep their values. When the refresh finds records, the update
  runs on the refreshed cache; when the refresh raises, the state is untouched as well.
\<close>

theorem update_dns_no_records:
  assumes "cached_records w = []"
  shows "(fetch_pages e 1 [] = Some (Inr []) \<longrightarrow>
            (\<exists>w'. update_dns e ip w = Some (Inr (), w') \<and>
               logs w' = logs w @ [InfoCached [], ErrorNoRecords] \<and>
               app_state w' = app_state w \<and> state_file w' = state_file w \<and>
               puts w' = puts w \<and> cached_records w' = []))
       \<and> (\<forall>found. fetch_pages e 1 [] = Some (Inr found) \<and> found \<noteq> [] \<longrightarrow>
            update_dns e ip w =
              update_dns e ip (w\<lparr>cached_records := found,
                                 logs := logs w @ [InfoCached (map fst found)]\<rparr>))
       \<and> (fetch_pages e 1 [] = Some (Inl RegistrarError) \<longrightarrow>
            update_dns e ip w = Some (Inl RegistrarError, w))"
  using assms
  by (simp add: update_dns_def load_dns_records_def Let_def)

theorem update_dns_no_records_witness:
  "cached_records (demo_world\<lparr>cached_records := []\<rparr>) = []
   \<and> fetch_pages demo_env 1 [] = Some (Inr [])
   \<and> (\<exists>w'. update_dns demo_env ''5.6.7.8'' (demo_world\<lparr>cached_records := []\<rparr>) = Some (Inr (), w')
         \<and> logs w' = [InfoCached [], ErrorNoRecords]
         \<and> app_state w' = demo_state \<and> state_file w' = NoFile \<and> puts w' = [])"
proof -
  have c: "cached_records (demo_world\<lparr>cached_records := []\<rparr>) = []"
    by simp
  have f: "fetch_pages demo_env 1 [] = Some (Inr [])"
    by (subst fetch_pages.simps) (simp add: demo_env_def)
  have v: "logs (demo_world\<lparr>cached_records := []\<rparr>) = []"
       "app_state (demo_world\<lparr>cached_records := []\<rparr>) = demo_state"
       "state_file (demo_world\<lparr>cached_records := []\<rparr>) = NoFile"
       "puts (demo_world\<lparr>cached_records := []\<rparr>) = []"
    by (simp_all add: demo_world_def)
  note t = update_dns_no_records [OF c, of demo_env "''5.6.7.8''", THEN conjunct1]
  from t c f v show ?thesis
    by auto
qed

text \<open>
  Claim C10. With a cached record, a direct call of \<^verbatim>\<open>update_dns\<close>, and so the manual
  switch endpoint, sets \<^verbatim>\<open>current_dns\<close> to the requested address, stamps
  \<^verbatim>\<open>last_switch_at\<close> and saves, whatever \<^verbatim>\<open>freeze\<close>, \<^verbatim>\<open>cooldown_seconds\<close> and
  the previous stamp are (none of them is a hypothesis), and leaves the freeze flag as it
  was; the same state holds a decision, which changes nothing.
\<close>

theorem manual_switch_ignores_freeze_and_cooldown:
  assumes "cached_records w \<noteq> []"
  shows "(\<exists>w'. update_dns e ip w = Some (Inr (), w') \<and>
            current_dns (app_state w') = ip \<and>
            last_switch_at (app_state w') = Some (stamp e) \<and>
            freeze (app_state w') = freeze (app_state w) \<and>
            cooldown_seconds (app_state w') = cooldown_seconds (app_state w) \<and>
            state_file w' = Stored (asdict (app_state w')))
       \<and> (lower f = ''server1'' \<or> lower f = ''server2'' \<longrightarrow>
            (\<exists>w'. api_switch e True (Some f) w = Some (HxRefresh, w') \<and>
               current_dns (app_state w') =
                 (if lower f = ''server1'' then SERVER1_IP e else SERVER2_IP e) \<and>
               last_switch_at (app_state w') = Some (stamp e)))
       \<and> (held e (app_state w) \<longrightarrow>
            (\<exists>msg w'. decide_failover e src w = Some (Inr msg, w') \<and>
               app_state w' = app_state w \<and> puts w' = puts w))"
proof (intro conjI impI)
  show "\<exists>w'. update_dns e ip w = Some (Inr (), w') \<and>
            current_dns (app_state w') = ip \<and>
            last_switch_at (app_state w') = Some (stamp e) \<and>
            freeze (app_state w') = freeze (app_state w) \<and>
            cooldown_seconds (app_state w') = cooldown_seconds (app_state w) \<and>
            state_file w' = Stored (asdict (app_state w'))"
    by (simp add: update_dns_cached [OF assms])
next
  assume "lower f = ''server1'' \<or> lower f = ''server2''"
  then show "\<exists>w'. api_switch e True (Some f) w = Some (HxRefresh, w') \<and>
               current_dns (app_state w') =
                 (if lower f = ''server1'' then SERVER1_IP e else SERVER2_IP e) \<and>
               last_switch_at (app_state w') = Some (stamp e)"
    by (auto simp add: api_switch_def Let_def update_dns_cached [OF assms])
next
  assume h: "held e (app_state w)"
  show "\<exists>msg w'. decide_failover e src w = Some (Inr msg, w') \<and>
               app_state w' = app_state w \<and> puts w' = puts w"
  proof (cases "freeze (app_state w)")
    case True
    then show ?thesis by (simp add: decide_frozen)
  next
    case False
    then show ?thesis using h by (simp add: held_def decide_cooldown)
  qed
qed

theorem manual_switch_ignores_freeze_and_cooldown_witness:
  "cached_records locked_world \<noteq> []
   \<and> freeze (app_state locked_world)
   \<and> \<not> cooldown_ok demo_env (app_state locked_world) (last_switch_at (app_state locked_world))
   \<and> lower ''Server2'' = ''server2''
   \<and> (\<exists>w'. api_switch demo_env True (Some ''Server2'') locked_world = Some (HxRefresh, w')
         \<and> current_dns (app_state w') = ''5.6.7.8''
         \<and> last_switch_at (app_state w') = Some ''1970-01-01T00:01:40Z'')"
proof -
  have c: "cached_records locked_world \<noteq> []"
    by (simp add: locked_world_def demo_defs)
  have fz: "freeze (app_state locked_world)"
    by (simp add: locked_world_def)
  have cd: "\<not> cooldown_ok demo_env (app_state locked_world) (last_switch_at (app_state locked_world))"
    by (simp add: locked_world_def demo_defs replace_Z_def)
  have l: "lower ''Server2'' = ''server2''"
    by code_simp
  have v: "SERVER2_IP demo_env = ''5.6.7.8''" "stamp demo_env = ''1970-01-01T00:01:40Z''"
    by (simp_all add: demo_defs)
  note t = manual_switch_ignores_freeze_and_cooldown [OF c, of demo_env _ "''Server2''",
             THEN conjunct2, THEN conjunct1]
  from t c fz cd l v show ?thesis
    by auto
qed





lemma held_cong:
  "freeze s' = freeze s \<Longrightarrow> cooldown_seconds s' = cooldown_seconds s \<Longrightarrow>
   last_switch_at s' = last_switch_at s \<Longrightarrow> held e s' = held e s"
  by (simp add: held_def cooldown_ok_cong [of s' s])

lemma update_dns_app_state:
  "update_dns e ip w = Some (r, w') \<Longrightarrow>
   app_state w' = app_state w \<or>
   app_state w' = (app_state w)\<lparr>current_dns := ip, last_switch_at := Some (stamp e)\<rparr>"
  by (auto simp add: update_dns_def load_dns_records_def Let_def stamp_def
      split: if_splits option.splits sum.splits prod.splits)

lemma decide_app_state:
  assumes "decide_failover e src w = Some (r, w')"
  shows "(held e (app_state w) \<and> app_state w' = app_state w) \<or>
         (\<not> held e (app_state w) \<and>
            (app_state w' = update_streaks (app_state w) \<or>
             app_state w' = (update_streaks (app_state w))
               \<lparr>current_dns := spec_desired e (update_streaks (app_state w)),
                 last_switch_at := Some (stamp e)\<rparr>))"
proof (cases "held e (app_state w)")
  case True
  then show ?thesis
    using assms by (cases "freeze (app_state w)") (auto simp add: held_def decide_frozen decide_cooldown)
next
  case False
  show ?thesis
  proof (cases "spec_desired e (update_streaks (app_state w)) = current_dns (app_state w)")
    case True
    then show ?thesis
      using assms False by (auto simp add: decide_evaluated [OF False] Let_def)
  next
    case ne: False
    from assms ne obtain r2 w2 where
      u: "update_dns e (spec_desired e (update_streaks (app_state w)))
            (w\<lparr>app_state := update_streaks (app_state w)\<rparr>) = Some (r2, w2)"
      and a: "app_state w' = app_state w2"
      by (auto simp add: decide_evaluated [OF False] Let_def
          split: option.splits sum.splits prod.splits)
    from update_dns_app_state [OF u] a False show ?thesis
      by auto
  qed
qed

lemma parse_status_malformed:
  "malformed e body \<Longrightarrow> parse_status e body = False"
  by (auto simp add: malformed_def status_field_def parse_status_def
      split: json.splits option.splits)

lemma webhook1_accepted:
  assumes "check_webhook_secret header (app_state w)"
    and "webhook_server1 e header body w = Some (r, w')"
  shows "\<exists>r0. decide_failover e ''webhook:s1''
            (w\<lparr>app_state := (app_state w)
                  \<lparr>server1_up := parse_status e (if truthy body then body else JObj [])\<rparr>\<rparr>)
            = Some (r0, w') \<and> (\<forall>n. r \<noteq> Aborted n)"
  using assms
  by (auto simp add: webhook_server1_def Let_def split: option.splits sum.splits prod.splits)

text \<open>
  The specification asks that a malformed heartbeat be rejected with no state change. An
  empty body is accepted: target 1 is marked down and DNS is switched.
\<close>

theorem malformed_heartbeat_counterexample:
  "malformed demo_env (JObj [])
   \<and> server1_up (app_state demo_world) \<and> current_dns (app_state demo_world) = ''1.2.3.4''
   \<and> (\<exists>w'. webhook_server1 demo_env (Some ''tok'') (JObj []) demo_world
              = Some (HeartbeatAck False True (SwitchedMsg ''5.6.7.8'' ''webhook:s1'' False True), w')
         \<and> \<not> server1_up (app_state w')
         \<and> current_dns (app_state w') = ''5.6.7.8''
         \<and> puts w' \<noteq> [])"
  by (simp add: malformed_def status_field_def webhook_server1_def check_webhook_secret_def
      parse_status_def decide_failover_def update_streaks_def update_dns_def telegram_send_def
      save_def Let_def demo_defs)

text \<open>
  Claim C5, amended. A heartbeat whose status is missing or rejected by \<^verbatim>\<open>int\<close>
  resolves to down: with a valid secret the request is not rejected, the target's flag is
  set to down and the decision runs on it (with a cached record the answer is the
  heartbeat acknowledgement with status down). The flag only ever receives the boolean
  that \<^verbatim>\<open>_parse_status\<close> resolved.
\<close>

theorem malformed_heartbeat_resolves_to_down:
  assumes "malformed e (if truthy body then body else JObj [])"
    and "check_webhook_secret header (app_state w)"
  shows "parse_status e (if truthy body then body else JObj []) = False
       \<and> (\<forall>r w'. webhook_server1 e header body w = Some (r, w') \<longrightarrow>
            \<not> server1_up (app_state w') \<and> (\<forall>n. r \<noteq> Aborted n))
       \<and> (cached_records w \<noteq> [] \<longrightarrow>
            (\<exists>msg w'. webhook_server1 e header body w =
                         Some (HeartbeatAck False (server2_up (app_state w)) msg, w') \<and>
                       \<not> server1_up (app_state w')))"
proof (intro conjI allI impI)
  show p: "parse_status e (if truthy body then body else JObj []) = False"
    by (rule parse_status_malformed [OF assms(1)])
  {
    fix r w'
    assume ret: "webhook_server1 e header body w = Some (r, w')"
    from webhook1_accepted [OF assms(2) ret] obtain r0 where
      d: "decide_failover e ''webhook:s1''
            (w\<lparr>app_state := (app_state w)
                  \<lparr>server1_up := parse_status e (if truthy body then body else JObj [])\<rparr>\<rparr>)
            = Some (r0, w')"
      and na: "\<forall>n. r \<noteq> Aborted n"
      by blast
    from decide_app_state [OF d] p show "\<not> server1_up (app_state w')"
      by auto
    from na show "\<And>n. r \<noteq> Aborted n"
      by blast
  }
  assume c: "cached_records w \<noteq> []"
  let ?w1 = "w\<lparr>app_state := (app_state w)\<lparr>server1_up := False\<rparr>\<rparr>"
  have c1: "cached_records ?w1 \<noteq> []"
    using c by simp
  show "\<exists>msg w'. webhook_server1 e header body w =
                         Some (HeartbeatAck False (server2_up (app_state w)) msg, w') \<and>
                       \<not> server1_up (app_state w')"
  proof (cases "held e (app_state ?w1)")
    case True
    then show ?thesis
      using assms(2) p
      by (cases "freeze (app_state w)")
         (auto simp add: webhook_server1_def Let_def held_def decide_frozen decide_cooldown)
  next
    case False
    from decide_evaluated_cached [OF False c1, of "''webhook:s1''"] obtain msg w' where
      d: "decide_failover e ''webhook:s1'' ?w1 = Some (Inr msg, w')"
      by blast
    from decide_app_state [OF d] have "\<not> server1_up (app_state w')" "server2_up (app_state w') = server2_up (app_state w)"
      by auto
    then show ?thesis
      using assms(2) p d by (simp add: webhook_server1_def Let_def)
  qed
qed

theorem malformed_heartbeat_resolves_to_down_witness:
  "malformed demo_env (if truthy (JObj [(''heartbeat'', JObj [(''status'', JStr ''up'')])])
                       then JObj [(''heartbeat'', JObj [(''status'', JStr ''up'')])] else JObj [])
   \<and> check_webhook_secret (Some ''tok'') (app_state demo_world)
   \<and> (\<exists>msg w'. webhook_server1 demo_env (Some ''tok'')
                  (JObj [(''heartbeat'', JObj [(''status'', JStr ''up'')])]) demo_world
                = Some (HeartbeatAck False True msg, w')
         \<and> \<not> server1_up (app_state w'))"
proof -
  have m: "malformed demo_env (if truthy (JObj [(''heartbeat'', JObj [(''status'', JStr ''up'')])])
                       then JObj [(''heartbeat'', JObj [(''status'', JStr ''up'')])] else JObj [])"
    by (simp add: malformed_def status_field_def demo_env_def)
  have k: "check_webhook_secret (Some ''tok'') (app_state demo_world)"
    by (simp add: check_webhook_secret_def demo_defs)
  have c: "cached_records demo_world \<noteq> []" "server2_up (app_state demo_world)"
    by (simp_all add: demo_defs)
  note t = malformed_heartbeat_resolves_to_down [OF m k, THEN conjunct2, THEN conjunct2]
  from t m k c show ?thesis
    by auto
qed


lemma webhook2_accepted:
  assumes "check_webhook_secret header (app_state w)"
    and "webhook_server2 e header body w = Some (r, w')"
  shows "\<exists>r0. decide_failover e ''webhook:s2''
            (w\<lparr>app_state := (app_state w)
                  \<lparr>server2_up := parse_status e (if truthy body then body else JObj [])\<rparr>\<rparr>)
            = Some (r0, w') \<and> (\<forall>n. r \<noteq> Aborted n)"
  using assms
  by (auto simp add: webhook_server2_def Let_def split: option.splits sum.splits prod.splits)

lemma decide_returns_cached:
  assumes "cached_records w \<noteq> []"
  shows "\<exists>msg w'. decide_failover e src w = Some (Inr msg, w')"
proof (cases "held e (app_state w)")
  case True
  then show ?thesis
    by (cases "freeze (app_state w)") (auto simp add: held_def decide_frozen decide_cooldown)
next
  case False
  from decide_evaluated_cached [OF False assms, of src] show ?thesis
    by blast
qed

lemma decide_streaks:
  assumes "decide_failover e src w = Some (r, w')"
  shows "server1_up (app_state w') = server1_up (app_state w)"
    and "server2_up (app_state w') = server2_up (app_state w)"
    and "held e (app_state w) \<Longrightarrow> streaks (app_state w') = streaks (app_state w)"
    and "\<not> held e (app_state w) \<Longrightarrow>
           streaks (app_state w') =
             (if server1_up (app_state w) then s1_up_streak (app_state w) + 1 else 0,
              if server1_up (app_state w) then 0 else s1_down_streak (app_state w) + 1,
              if server2_up (app_state w) then s2_up_streak (app_state w) + 1 else 0,
              if server2_up (app_state w) then 0 else s2_down_streak (app_state w) + 1)"
  using decide_app_state [OF assms]
  by (auto simp add: streaks_def update_streaks_counters)

text \<open>
  The specification moves the streak with every report. An up report that arrives while
  the service is frozen sets the flag and leaves the up-streak at 0.
\<close>

theorem report_streak_counterexample:
  "check_webhook_secret (Some ''tok'') (app_state frozen_world)
   \<and> parse_status demo_env (hb_body 1)
   \<and> (\<exists>r w'. webhook_server1 demo_env (Some ''tok'') (hb_body 1) frozen_world = Some (r, w')
         \<and> server1_up (app_state w')
         \<and> s1_up_streak (app_state w') = 0
         \<and> s1_up_streak (app_state frozen_world) = 0)"
  by (simp add: webhook_server1_def check_webhook_secret_def parse_status_def decide_failover_def
      frozen_world_def Let_def demo_defs)

text \<open>
  Claim C8, amended. A heartbeat with a valid secret sets the named target's flag to the
  reported value and leaves the other flag. The streak counters are moved by the decision
  the heartbeat triggers: when that decision is held (frozen or in cooldown) all four
  counters stay; otherwise the counters of both targets move, each by its target's
  current flag: up adds one to the up-streak and resets the down-streak to 0, down is
  symmetric. With a cached record the handler returns.
\<close>

theorem heartbeat_sets_flag_decision_updates_streaks:
  assumes "check_webhook_secret header (app_state w)"
  shows "(\<forall>r w'. webhook_server1 e header body w = Some (r, w') \<longrightarrow>
            server1_up (app_state w') = parse_status e (if truthy body then body else JObj []) \<and>
            server2_up (app_state w') = server2_up (app_state w) \<and>
            streaks (app_state w') =
              (if held e (app_state w) then streaks (app_state w)
               else (if parse_status e (if truthy body then body else JObj [])
                     then s1_up_streak (app_state w) + 1 else 0,
                     if parse_status e (if truthy body then body else JObj [])
                     then 0 else s1_down_streak (app_state w) + 1,
                     if server2_up (app_state w) then s2_up_streak (app_state w) + 1 else 0,
                     if server2_up (app_state w) then 0 else s2_down_streak (app_state w) + 1)))
       \<and> (\<forall>r w'. webhook_server2 e header body w = Some (r, w') \<longrightarrow>
            server2_up (app_state w') = parse_status e (if truthy body then body else JObj []) \<and>
            server1_up (app_state w') = server1_up (app_state w) \<and>
            streaks (app_state w') =
              (if held e (app_state w) then streaks (app_state w)
               else (if server1_up (app_state w) then s1_up_streak (app_state w) + 1 else 0,
                     if server1_up (app_state w) then 0 else s1_down_streak (app_state w) + 1,
                     if parse_status e (if truthy body then body else JObj [])
                     then s2_up_streak (app_state w) + 1 else 0,
                     if parse_status e (if truthy body then body else JObj [])
                     then 0 else s2_down_streak (app_state w) + 1)))
       \<and> (cached_records w \<noteq> [] \<longrightarrow>
            (\<exists>r w'. webhook_server1 e header body w = Some (r, w')) \<and>
            (\<exists>r w'. webhook_server2 e header body w = Some (r, w')))"
proof (intro conjI allI impI)
  fix r w'
  assume ret: "webhook_server1 e header body w = Some (r, w')"
  let ?s = "(app_state w)\<lparr>server1_up := parse_status e (if truthy body then body else JObj [])\<rparr>"
  from webhook1_accepted [OF assms ret] obtain r0 where
    d: "decide_failover e ''webhook:s1'' (w\<lparr>app_state := ?s\<rparr>) = Some (r0, w')"
    by blast
  have h: "held e ?s = held e (app_state w)"
    by (rule held_cong) simp_all
  show "server1_up (app_state w') = parse_status e (if truthy body then body else JObj [])"
    using decide_streaks(1) [OF d] by simp
  show "server2_up (app_state w') = server2_up (app_state w)"
    using decide_streaks(2) [OF d] by simp
  show "streaks (app_state w') =
              (if held e (app_state w) then streaks (app_state w)
               else (if parse_status e (if truthy body then body else JObj [])
                     then s1_up_streak (app_state w) + 1 else 0,
                     if parse_status e (if truthy body then body else JObj [])
                     then 0 else s1_down_streak (app_state w) + 1,
                     if server2_up (app_state w) then s2_up_streak (app_state w) + 1 else 0,
                     if server2_up (app_state w) then 0 else s2_down_streak (app_state w) + 1))"
    using decide_streaks(3,4) [OF d] h by (auto simp add: streaks_def)
next
  fix r w'
  assume ret: "webhook_server2 e header body w = Some (r, w')"
  let ?s = "(app_state w)\<lparr>server2_up := parse_status e (if truthy body then body else JObj [])\<rparr>"
  from webhook2_accepted [OF assms ret] obtain r0 where
    d: "decide_failover e ''webhook:s2'' (w\<lparr>app_state := ?s\<rparr>) = Some (r0, w')"
    by blast
  have h: "held e ?s = held e (app_state w)"
    by (rule held_cong) simp_all
  show "server2_up (app_state w') = parse_status e (if truthy body then body else JObj [])"
    using decide_streaks(2) [OF d] by simp
  show "server1_up (app_state w') = server1_up (app_state w)"
    using decide_streaks(1) [OF d] by simp
  show "streaks (app_state w') =
              (if held e (app_state w) then streaks (app_state w)
               else (if server1_up (app_state w) then s1_up_streak (app_state w) + 1 else 0,
                     if server1_up (app_state w) then 0 else s1_down_streak (app_state w) + 1,
                     if parse_status e (if truthy body then body else JObj [])
                     then s2_up_streak (app_state w) + 1 else 0,
                     if parse_status e (if truthy body then body else JObj [])
                     then 0 else s2_down_streak (app_state w) + 1))"
    using decide_streaks(3,4) [OF d] h by (auto simp add: streaks_def)
next
  assume c: "cached_records w \<noteq> []"
  let ?w1 = "w\<lparr>app_state := (app_state w)\<lparr>server1_up := parse_status e (if truthy body then body else JObj [])\<rparr>\<rparr>"
  have "cached_records ?w1 \<noteq> []" using c by simp
  from decide_returns_cached [OF this, of e "''webhook:s1''"]
  show "\<exists>r w'. webhook_server1 e header body w = Some (r, w')"
    using assms by (auto simp add: webhook_server1_def Let_def)
next
  assume c: "cached_records w \<noteq> []"
  let ?w1 = "w\<lparr>app_state := (app_state w)\<lparr>server2_up := parse_status e (if truthy body then body else JObj [])\<rparr>\<rparr>"
  have "cached_records ?w1 \<noteq> []" using c by simp
  from decide_returns_cached [OF this, of e "''webhook:s2''"]
  show "\<exists>r w'. webhook_server2 e header body w = Some (r, w')"
    using assms by (auto simp add: webhook_server2_def Let_def)
qed

theorem heartbeat_sets_flag_decision_updates_streaks_witness:
  "check_webhook_secret (Some ''tok'') (app_state demo_world)
   \<and> (\<exists>r w'. webhook_server1 demo_env (Some ''tok'') (hb_body 1) demo_world = Some (r, w')
         \<and> server1_up (app_state w') \<and> streaks (app_state w') = (1, 0, 1, 0))"
proof -
  have k: "check_webhook_secret (Some ''tok'') (app_state demo_world)"
    by (simp add: check_webhook_secret_def demo_defs)
  have c: "cached_records demo_world \<noteq> []"
    by (simp add: demo_defs)
  have v: "parse_status demo_env (if truthy (hb_body 1) then hb_body 1 else JObj [])"
       "\<not> held demo_env (app_state demo_world)"
       "server2_up (app_state demo_world)"
       "s1_up_streak (app_state demo_world) = 0" "s2_up_streak (app_state demo_world) = 0"
    by (simp_all add: parse_status_def demo_defs)
  note t = heartbeat_sets_flag_decision_updates_streaks [OF k, of demo_env "hb_body 1"]
  from t [THEN conjunct1] t [THEN conjunct2, THEN conjunct2] k c v show ?thesis
    by auto
qed

lemma load_asdict:
  "load e (Stored (asdict s)) = Some (ensure_secret e s)"
proof -
  have "of_dict (foldl (\<lambda>d kv. dict_set (fst kv) (snd kv) d) (asdict (defaults e)) (asdict s)) = s"
    by (cases s) (simp add: asdict_def of_dict_def get_bool_def get_int_def get_str_def opt_str_def
        split: option.splits)
  moreover have "typed (foldl (\<lambda>d kv. dict_set (fst kv) (snd kv) d) (asdict (defaults e)) (asdict s))"
    by (simp add: asdict_def typed_def schema_def opt_str_def split: option.splits)
  moreover have "\<not> list_ex (\<lambda>kv. fst kv \<notin> set (map fst schema))
                  (foldl (\<lambda>d kv. dict_set (fst kv) (snd kv) d) (asdict (defaults e)) (asdict s))"
    by (simp add: asdict_def schema_def)
  ultimately show ?thesis
    by (simp add: load_def Let_def)
qed

lemma to_public_masked:
  assumes "webhook_secret s = Some k" and "k \<noteq> []"
  shows "to_public s =
     [(''server1_up'', JBool (server1_up s)),
      (''server2_up'', JBool (server2_up s)),
      (''current_dns'', JStr (current_dns s)),
      (''last_switch_at'', opt_str (last_switch_at s)),
      (''freeze'', JBool (freeze s)),
      (''ttl'', JInt (ttl s)),
      (''webhook_secret'', JStr ''***''),
      (''down_threshold'', JInt (down_threshold s)),
      (''up_threshold'', JInt (up_threshold s)),
      (''cooldown_seconds'', JInt (cooldown_seconds s))]"
  using assms by (simp add: to_public_def asdict_def opt_str_def Let_def)

text \<open>
  Claim C9. For a state whose webhook secret is set: the public snapshot carries the mask
  in its place, and the snapshot and the two endpoints that export it are the same for
  every other secret, so no exported view depends on the secret; the dict that
  \<^verbatim>\<open>save\<close> writes holds the real secret, and loading the saved file gives the state
  back with the same secret (it is not generated again). \<^verbatim>\<open>load\<close> generates the
  secret when the file is missing or unreadable or stores none; the file receives it
  with the next \<^verbatim>\<open>save\<close>.
\<close>

theorem secret_masked_in_views_kept_in_file:
  assumes "webhook_secret s = Some k" and "k \<noteq> []"
  shows "map_of (to_public s) ''webhook_secret'' = Some (JStr ''***'')
       \<and> (\<forall>k'. k' \<noteq> [] \<longrightarrow>
            to_public (s\<lparr>webhook_secret := Some k'\<rparr>) = to_public s \<and>
            api_status (w\<lparr>app_state := s\<lparr>webhook_secret := Some k'\<rparr>\<rparr>)
              = api_status (w\<lparr>app_state := s\<rparr>) \<and>
            api_config e (w\<lparr>app_state := s\<lparr>webhook_secret := Some k'\<rparr>\<rparr>)
              = api_config e (w\<lparr>app_state := s\<rparr>))
       \<and> map_of (asdict s) ''webhook_secret'' = Some (JStr k)
       \<and> state_file (save (w\<lparr>app_state := s\<rparr>)) = Stored (asdict s)
       \<and> load e (state_file (save (w\<lparr>app_state := s\<rparr>))) = Some s
       \<and> load e NoFile = Some ((defaults e)\<lparr>webhook_secret := Some (token_urlsafe e)\<rparr>)
       \<and> load e Unreadable = Some ((defaults e)\<lparr>webhook_secret := Some (token_urlsafe e)\<rparr>)
       \<and> (\<forall>s0. webhook_secret s0 = None \<or> webhook_secret s0 = Some [] \<longrightarrow>
            load e (Stored (asdict s0)) = Some (s0\<lparr>webhook_secret := Some (token_urlsafe e)\<rparr>))"
proof (intro conjI allI impI)
  show "map_of (to_public s) ''webhook_secret'' = Some (JStr ''***'')"
    by (simp add: to_public_masked [OF assms])
next
  fix k' :: string
  assume k': "k' \<noteq> []"
  have m: "to_public (s\<lparr>webhook_secret := Some k'\<rparr>) = to_public s"
    using to_public_masked [of "s\<lparr>webhook_secret := Some k'\<rparr>" k'] k'
    by (simp add: to_public_masked [OF assms])
  show "to_public (s\<lparr>webhook_secret := Some k'\<rparr>) = to_public s"
    by (rule m)
  show "api_status (w\<lparr>app_state := s\<lparr>webhook_secret := Some k'\<rparr>\<rparr>) = api_status (w\<lparr>app_state := s\<rparr>)"
    by (simp add: api_status_def m)
  show "api_config e (w\<lparr>app_state := s\<lparr>webhook_secret := Some k'\<rparr>\<rparr>) = api_config e (w\<lparr>app_state := s\<rparr>)"
    by (simp add: api_config_def m)
next
  show "map_of (asdict s) ''webhook_secret'' = Some (JStr k)"
    using assms by (simp add: asdict_def opt_str_def)
next
  show "state_file (save (w\<lparr>app_state := s\<rparr>)) = Stored (asdict s)"
    by simp
next
  show "load e (state_file (save (w\<lparr>app_state := s\<rparr>))) = Some s"
    using assms by (simp add: load_asdict ensure_secret_def)
next
  show "load e NoFile = Some ((defaults e)\<lparr>webhook_secret := Some (token_urlsafe e)\<rparr>)"
    by (simp add: load_def)
next
  show "load e Unreadable = Some ((defaults e)\<lparr>webhook_secret := Some (token_urlsafe e)\<rparr>)"
    by (simp add: load_def)
next
  fix s0 :: ServiceState
  assume "webhook_secret s0 = None \<or> webhook_secret s0 = Some []"
  then show "load e (Stored (asdict s0)) = Some (s0\<lparr>webhook_secret := Some (token_urlsafe e)\<rparr>)"
    by (auto simp add: load_asdict ensure_secret_def)
qed

theorem secret_masked_in_views_kept_in_file_witness:
  "webhook_secret demo_state = Some ''tok''
   \<and> map_of (to_public demo_state) ''webhook_secret'' = Some (JStr ''***'')
   \<and> map_of (asdict demo_state) ''webhook_secret'' = Some (JStr ''tok'')
   \<and> load demo_env (state_file (save (demo_world\<lparr>app_state := demo_state\<rparr>))) = Some demo_state
   \<and> load demo_env NoFile = Some demo_state"
proof -
  have k: "webhook_secret demo_state = Some ''tok''" and n: "''tok'' \<noteq> []"
    by (simp_all add: demo_state_def)
  have d: "(defaults demo_env)\<lparr>webhook_secret := Some (token_urlsafe demo_env)\<rparr> = demo_state"
    by (simp add: demo_state_def demo_env_def)
  note t = secret_masked_in_views_kept_in_file [OF k n, of demo_world demo_env]
  from t k d show ?thesis
    by simp
qed

lemma after_decision_keeps [simp]:
  "server1_up (after_decision e s) = server1_up s"
  "server2_up (after_decision e s) = server2_up s"
  "freeze (after_decision e s) = freeze s"
  "webhook_secret (after_decision e s) = webhook_secret s"
  "up_threshold (after_decision e s) = up_threshold s"
  "cooldown_seconds (after_decision e s) = cooldown_seconds s"
  "s1_up_streak (after_decision e s) = (if server1_up s then s1_up_streak s + 1 else 0)"
  "s2_up_streak (after_decision e s) = (if server2_up s then s2_up_streak s + 1 else 0)"
  "current_dns (after_decision e s) = spec_desired e (update_streaks s)"
  by (simp_all add: after_decision_def Let_def update_streaks_counters)

lemma not_held_zero:
  "\<not> freeze s \<Longrightarrow> cooldown_seconds s = 0 \<Longrightarrow> \<not> held e s"
  by (simp add: held_def cooldown_ok_def)

lemma decide_evaluated_state:
  assumes "\<not> held e (app_state w)" and "cached_records w \<noteq> []"
  shows "\<exists>msg w'. decide_failover e src w = Some (Inr msg, w') \<and>
           app_state w' = after_decision e (app_state w) \<and>
           cached_records w' = cached_records w"
proof (cases "spec_desired e (update_streaks (app_state w)) = current_dns (app_state w)")
  case True
  then show ?thesis
    by (simp add: decide_evaluated [OF assms(1)] Let_def after_decision_def)
next
  case False
  have c: "cached_records (w\<lparr>app_state := update_streaks (app_state w)\<rparr>) \<noteq> []"
    using assms(2) by simp
  show ?thesis
    using False
    by (simp add: decide_evaluated [OF assms(1)] Let_def update_dns_cached [OF c] after_decision_def)
qed

lemma webhook1_evaluated:
  assumes "check_webhook_secret (Some k) (app_state w)"
    and "\<not> freeze (app_state w)" and "cooldown_seconds (app_state w) = 0"
    and "cached_records w \<noteq> []"
  shows "\<exists>w'. deliver e k [(Server1, body)] w = Some w' \<and>
           app_state w' = after_decision e ((app_state w)
             \<lparr>server1_up := parse_status e (if truthy body then body else JObj [])\<rparr>) \<and>
           cached_records w' = cached_records w"
proof -
  let ?w1 = "w\<lparr>app_state := (app_state w)
               \<lparr>server1_up := parse_status e (if truthy body then body else JObj [])\<rparr>\<rparr>"
  have nh: "\<not> held e (app_state ?w1)"
    using assms(2,3) by (simp add: not_held_zero)
  have c: "cached_records ?w1 \<noteq> []"
    using assms(4) by simp
  from decide_evaluated_state [OF nh c, of "''webhook:s1''"] obtain msg w' where
    "decide_failover e ''webhook:s1'' ?w1 = Some (Inr msg, w')"
    "app_state w' = after_decision e (app_state ?w1)"
    "cached_records w' = cached_records ?w1"
    by blast
  then show ?thesis
    using assms(1) by (simp add: webhook_server1_def Let_def)
qed

lemma hb_body_status [simp]:
  "parse_status e (if truthy (hb_body n) then hb_body n else JObj []) = (n = 1)"
  by (simp add: hb_body_def parse_status_def)

lemma secret_after [simp]:
  "check_webhook_secret h (after_decision e s) = check_webhook_secret h s"
  "check_webhook_secret h (s\<lparr>server1_up := b\<rparr>) = check_webhook_secret h s"
  "check_webhook_secret h (s\<lparr>server2_up := b\<rparr>) = check_webhook_secret h s"
  by (auto simp add: check_webhook_secret_def split: option.splits)

lemma scenario:
  assumes k: "check_webhook_secret (Some k) (app_state w)"
    and f: "\<not> freeze (app_state w)" and cd: "cooldown_seconds (app_state w) = 0"
    and c: "cached_records w \<noteq> []"
    and thr: "up_threshold (app_state w) = 2"
    and s2: "server2_up (app_state w)" "1 \<le> s2_up_streak (app_state w)"
    and cur: "current_dns (app_state w) = SERVER1_IP e"
    and ne: "SERVER1_IP e \<noteq> SERVER2_IP e"
  shows "current (deliver e k [(Server1, hb_body 0)] w) = Some (SERVER2_IP e)
       \<and> current (deliver e k [(Server1, hb_body 0), (Server1, hb_body 1)] w) = Some (SERVER2_IP e)
       \<and> current (deliver e k [(Server1, hb_body 0), (Server1, hb_body 1), (Server1, hb_body 1)] w)
           = Some (SERVER1_IP e)"
proof -
  from webhook1_evaluated [OF k f cd c, of e "hb_body 0"] obtain w1 where
    d1: "deliver e k [(Server1, hb_body 0)] w = Some w1"
    and a1: "app_state w1 = after_decision e ((app_state w)\<lparr>server1_up := False\<rparr>)"
    and c1: "cached_records w1 \<noteq> []"
    using c by auto
  have k1: "check_webhook_secret (Some k) (app_state w1)"
    and f1: "\<not> freeze (app_state w1)" and cd1: "cooldown_seconds (app_state w1) = 0"
    using k f cd by (simp_all add: a1)
  have cur1: "current_dns (app_state w1) = SERVER2_IP e"
    using thr s2 cur ne by (simp add: a1 spec_desired_def Let_def update_streaks_counters)
  from webhook1_evaluated [OF k1 f1 cd1 c1, of e "hb_body 1"] obtain w2 where
    d2: "deliver e k [(Server1, hb_body 1)] w1 = Some w2"
    and a2: "app_state w2 = after_decision e ((app_state w1)\<lparr>server1_up := True\<rparr>)"
    and c2: "cached_records w2 \<noteq> []"
    using c1 by auto
  have k2: "check_webhook_secret (Some k) (app_state w2)"
    and f2: "\<not> freeze (app_state w2)" and cd2: "cooldown_seconds (app_state w2) = 0"
    using k1 f1 cd1 by (simp_all add: a2)
  have st2: "s1_up_streak (app_state w2) = 1" "up_threshold (app_state w2) = 2"
    using thr by (simp_all add: a2 a1)
  have cur2: "current_dns (app_state w2) = SERVER2_IP e"
    using thr cur1 by (simp add: a2 a1 spec_desired_def Let_def update_streaks_counters)
  from webhook1_evaluated [OF k2 f2 cd2 c2, of e "hb_body 1"] obtain w3 where
    d3: "deliver e k [(Server1, hb_body 1)] w2 = Some w3"
    and a3: "app_state w3 = after_decision e ((app_state w2)\<lparr>server1_up := True\<rparr>)"
    by auto
  have cur3: "current_dns (app_state w3) = SERVER1_IP e"
    using st2 by (simp add: a3 spec_desired_def Let_def update_streaks_counters)
  have e1: "deliver e k [(Server1, hb_body 0), (Server1, hb_body 1)] w = Some w2"
    using d1 d2 by (auto split: option.splits prod.splits)
  have e2: "deliver e k [(Server1, hb_body 0), (Server1, hb_body 1), (Server1, hb_body 1)] w = Some w3"
    using d1 d2 d3 by (auto split: option.splits prod.splits)
  show ?thesis
    unfolding current_def
    by (simp only: d1 e1 e2 option.map cur1 cur2 cur3 simp_thms)
qed

lemma webhook_step:
  assumes "webhook_server1 e h body w = Some (r, w') \<or> webhook_server2 e h body w = Some (r, w')"
  shows "\<exists>s0. freeze s0 = freeze (app_state w) \<and> up_threshold s0 = up_threshold (app_state w) \<and>
           s1_up_streak s0 = s1_up_streak (app_state w) \<and> current_dns s0 = current_dns (app_state w) \<and>
           (app_state w' = s0 \<or> app_state w' = update_streaks s0 \<or>
            app_state w' = (update_streaks s0)
               \<lparr>current_dns := spec_desired e (update_streaks s0), last_switch_at := Some (stamp e)\<rparr>)"
proof -
  from assms consider
      (abort) "w' = w"
    | (one) b r0 where "decide_failover e ''webhook:s1'' (w\<lparr>app_state := (app_state w)\<lparr>server1_up := b\<rparr>\<rparr>) = Some (r0, w')"
    | (two) b r0 where "decide_failover e ''webhook:s2'' (w\<lparr>app_state := (app_state w)\<lparr>server2_up := b\<rparr>\<rparr>) = Some (r0, w')"
    by (auto simp add: webhook_server1_def webhook_server2_def Let_def
        split: if_splits option.splits sum.splits prod.splits)
  then show ?thesis
  proof cases
    case abort
    then show ?thesis by auto
  next
    case one
    from decide_app_state [OF one] show ?thesis
      by (intro exI [of _ "(app_state w)\<lparr>server1_up := b\<rparr>"]) auto
  next
    case two
    from decide_app_state [OF two] show ?thesis
      by (intro exI [of _ "(app_state w)\<lparr>server2_up := b\<rparr>"]) auto
  qed
qed

lemma step_no_promotion:
  assumes st: "webhook_server1 e h body w = Some (r, w') \<or> webhook_server2 e h body w = Some (r, w')"
    and nn: "0 \<le> s1_up_streak (app_state w)"
    and lt: "s1_up_streak (app_state w) + 1 < up_threshold (app_state w)"
    and cur: "current_dns (app_state w) \<noteq> SERVER1_IP e"
    and ne: "SERVER1_IP e \<noteq> SERVER2_IP e"
  shows "up_threshold (app_state w') = up_threshold (app_state w)
       \<and> 0 \<le> s1_up_streak (app_state w')
       \<and> s1_up_streak (app_state w') \<le> s1_up_streak (app_state w) + 1
       \<and> current_dns (app_state w') \<noteq> SERVER1_IP e"
proof -
  from webhook_step [OF st] obtain s0 where
    s0: "up_threshold s0 = up_threshold (app_state w)"
        "s1_up_streak s0 = s1_up_streak (app_state w)" "current_dns s0 = current_dns (app_state w)"
    and alt: "app_state w' = s0 \<or> app_state w' = update_streaks s0 \<or>
            app_state w' = (update_streaks s0)
               \<lparr>current_dns := spec_desired e (update_streaks s0), last_switch_at := Some (stamp e)\<rparr>"
    by blast
  have d: "spec_desired e (update_streaks s0) \<noteq> SERVER1_IP e"
    using s0 nn lt cur ne by (auto simp add: spec_desired_def Let_def update_streaks_counters)
  from alt show ?thesis
    using s0 nn lt cur d by (auto simp add: update_streaks_counters)
qed

lemma no_early_promotion:
  assumes "deliver e k evs w = Some w'"
    and "0 \<le> s1_up_streak (app_state w)"
    and "s1_up_streak (app_state w) + int (length evs) < up_threshold (app_state w)"
    and "current_dns (app_state w) \<noteq> SERVER1_IP e"
    and "SERVER1_IP e \<noteq> SERVER2_IP e"
  shows "current_dns (app_state w') \<noteq> SERVER1_IP e"
  using assms
proof (induction evs arbitrary: w)
  case Nil
  then show ?case by simp
next
  case (Cons ev evs)
  obtain t body where ev: "ev = (t, body)" by (cases ev)
  from Cons.prems(1) obtain r w1 where
    st: "webhook_server1 e (Some k) body w = Some (r, w1) \<or> webhook_server2 e (Some k) body w = Some (r, w1)"
    and rest: "deliver e k evs w1 = Some w'"
    by (cases t) (auto simp add: ev split: option.splits prod.splits)
  have lt: "s1_up_streak (app_state w) + 1 < up_threshold (app_state w)"
    using Cons.prems(3) by simp
  from step_no_promotion [OF st Cons.prems(2) lt Cons.prems(4,5)]
  have i: "up_threshold (app_state w1) = up_threshold (app_state w)"
      "0 \<le> s1_up_streak (app_state w1)"
      "s1_up_streak (app_state w1) \<le> s1_up_streak (app_state w) + 1"
      "current_dns (app_state w1) \<noteq> SERVER1_IP e"
    by simp_all
  have "s1_up_streak (app_state w1) + int (length evs) < up_threshold (app_state w1)"
    using i Cons.prems(3) by simp
  from Cons.IH [OF rest i(2) this i(4) Cons.prems(5)] show ?case .
qed

text \<open>
  The scenario as the specification states it fails twice. From the state a first start
  loads, with the threshold set to 2, a down report for target 1 does not switch: target
  2's own up-streak is only 1. And after a failover, one up report for target 1 followed
  by a heartbeat of target 2 switches back: the streak counts decisions, not reports.
\<close>

theorem hysteresis_scenario_counterexample:
  "current (deliver demo_env ''tok'' [(Server1, hb_body 0)]
       (demo_world\<lparr>app_state := demo_state\<lparr>up_threshold := 2\<rparr>\<rparr>)) = Some ''1.2.3.4''
   \<and> current (deliver demo_env ''tok'' [(Server1, hb_body 0), (Server1, hb_body 1)] thr2_world)
       = Some ''5.6.7.8''
   \<and> current (deliver demo_env ''tok''
       [(Server1, hb_body 0), (Server1, hb_body 1), (Server2, hb_body 1)] thr2_world)
       = Some ''1.2.3.4''"
  by (simp add: current_def thr2_world_def webhook_server1_def webhook_server2_def
      check_webhook_secret_def parse_status_def decide_failover_def update_streaks_def
      update_dns_def telegram_send_def save_def Let_def demo_defs)

text \<open>
  Claim C2, amended. With \<^verbatim>\<open>up_threshold = 2\<close>, the service not frozen, no cooldown, a
  cached record, two distinct target addresses, target 1's address published and target 2
  up with an up-streak of at least 1: a heartbeat reporting target 1 down switches DNS to
  target 2; a following up heartbeat for target 1 causes no switch; a second one switches
  back to target 1. More generally, while target 1's address is not the published one
  and its up-streak is \<open>n \<ge> 0\<close>, no run of fewer than \<^verbatim>\<open>up_threshold\<close> \<open>- n\<close>
  heartbeats, of either target, publishes target 1's address.
\<close>

theorem hysteresis_scenario_amended:
  "(check_webhook_secret (Some k) (app_state w) \<and> \<not> freeze (app_state w) \<and>
    cooldown_seconds (app_state w) = 0 \<and> cached_records w \<noteq> [] \<and>
    up_threshold (app_state w) = 2 \<and> server2_up (app_state w) \<and>
    1 \<le> s2_up_streak (app_state w) \<and> current_dns (app_state w) = SERVER1_IP e \<and>
    SERVER1_IP e \<noteq> SERVER2_IP e \<longrightarrow>
      current (deliver e k [(Server1, hb_body 0)] w) = Some (SERVER2_IP e) \<and>
      current (deliver e k [(Server1, hb_body 0), (Server1, hb_body 1)] w) = Some (SERVER2_IP e) \<and>
      current (deliver e k [(Server1, hb_body 0), (Server1, hb_body 1), (Server1, hb_body 1)] w)
        = Some (SERVER1_IP e))
   \<and> (\<forall>evs w'. deliver e k evs w = Some w' \<and> 0 \<le> s1_up_streak (app_state w) \<and>
         s1_up_streak (app_state w) + int (length evs) < up_threshold (app_state w) \<and>
         current_dns (app_state w) \<noteq> SERVER1_IP e \<and> SERVER1_IP e \<noteq> SERVER2_IP e \<longrightarrow>
         current_dns (app_state w') \<noteq> SERVER1_IP e)"
proof (intro conjI allI impI)
  assume "check_webhook_secret (Some k) (app_state w) \<and> \<not> freeze (app_state w) \<and>
    cooldown_seconds (app_state w) = 0 \<and> cached_records w \<noteq> [] \<and>
    up_threshold (app_state w) = 2 \<and> server2_up (app_state w) \<and>
    1 \<le> s2_up_streak (app_state w) \<and> current_dns (app_state w) = SERVER1_IP e \<and>
    SERVER1_IP e \<noteq> SERVER2_IP e"
  then have s: "current (deliver e k [(Server1, hb_body 0)] w) = Some (SERVER2_IP e)
       \<and> current (deliver e k [(Server1, hb_body 0), (Server1, hb_body 1)] w) = Some (SERVER2_IP e)
       \<and> current (deliver e k [(Server1, hb_body 0), (Server1, hb_body 1), (Server1, hb_body 1)] w)
           = Some (SERVER1_IP e)"
    by (intro scenario) simp_all
  from s show "current (deliver e k [(Server1, hb_body 0)] w) = Some (SERVER2_IP e)"
    by (rule conjunct1)
  from s show "current (deliver e k [(Server1, hb_body 0), (Server1, hb_body 1)] w) = Some (SERVER2_IP e)"
    by (rule conjunct1 [OF conjunct2])
  from s show "current (deliver e k [(Server1, hb_body 0), (Server1, hb_body 1), (Server1, hb_body 1)] w)
        = Some (SERVER1_IP e)"
    by (rule conjunct2 [OF conjunct2])
next
  fix evs w'
  assume "deliver e k evs w = Some w' \<and> 0 \<le> s1_up_streak (app_state w) \<and>
         s1_up_streak (app_state w) + int (length evs) < up_threshold (app_state w) \<and>
         current_dns (app_state w) \<noteq> SERVER1_IP e \<and> SERVER1_IP e \<noteq> SERVER2_IP e"
  then show "current_dns (app_state w') \<noteq> SERVER1_IP e"
    by (intro no_early_promotion [of e k evs w w']) simp_all
qed

theorem hysteresis_scenario_amended_witness:
  "current (deliver demo_env ''tok'' [(Server1, hb_body 0)] thr2_world) = Some ''5.6.7.8''
   \<and> current (deliver demo_env ''tok'' [(Server1, hb_body 0), (Server1, hb_body 1)] thr2_world)
       = Some ''5.6.7.8''
   \<and> current (deliver demo_env ''tok''
       [(Server1, hb_body 0), (Server1, hb_body 1), (Server1, hb_body 1)] thr2_world)
       = Some ''1.2.3.4''
   \<and> (\<exists>w'. deliver demo_env ''tok'' [(Server1, hb_body 1)] failed_over_world = Some w'
         \<and> current_dns (app_state w') \<noteq> ''1.2.3.4'')"
proof -
  have h: "check_webhook_secret (Some ''tok'') (app_state thr2_world) \<and> \<not> freeze (app_state thr2_world) \<and>
    cooldown_seconds (app_state thr2_world) = 0 \<and> cached_records thr2_world \<noteq> [] \<and>
    up_threshold (app_state thr2_world) = 2 \<and> server2_up (app_state thr2_world) \<and>
    1 \<le> s2_up_streak (app_state thr2_world) \<and>
    current_dns (app_state thr2_world) = SERVER1_IP demo_env \<and>
    SERVER1_IP demo_env \<noteq> SERVER2_IP demo_env"
    by (simp add: thr2_world_def check_webhook_secret_def demo_defs)
  have ip: "SERVER1_IP demo_env = ''1.2.3.4''" "SERVER2_IP demo_env = ''5.6.7.8''"
    by (simp_all add: demo_env_def)
  obtain w' where d: "deliver demo_env ''tok'' [(Server1, hb_body 1)] failed_over_world = Some w'"
    by (simp add: failed_over_world_def webhook_server1_def check_webhook_secret_def
        parse_status_def decide_failover_def update_streaks_def save_def Let_def demo_defs)
  have g: "0 \<le> s1_up_streak (app_state failed_over_world) \<and>
         s1_up_streak (app_state failed_over_world) + int (length [(Server1, hb_body 1)])
           < up_threshold (app_state failed_over_world) \<and>
         current_dns (app_state failed_over_world) \<noteq> SERVER1_IP demo_env \<and>
         SERVER1_IP demo_env \<noteq> SERVER2_IP demo_env"
    by (simp add: failed_over_world_def demo_defs)
  note t1 = hysteresis_scenario_amended [of "''tok''" thr2_world demo_env, THEN conjunct1]
  note t2 = hysteresis_scenario_amended [of "''tok''" failed_over_world demo_env, THEN conjunct2]
  from t2 d g have "current_dns (app_state w') \<noteq> SERVER1_IP demo_env"
    by blast
  with t1 h d ip show ?thesis
    by auto
qed

end
